theory Spec2Isabelle
  imports Main "HOL-Library.AList" "HOL-Library.Sublist"
begin

section \<open>Values, errors and XML elements\<close>

text \<open>
  The program is dynamically typed: the values it handles are what \<^verbatim>\<open>json()\<close>
  returns (null, booleans, integers, strings, lists, dictionaries with string keys) and
  what the XML normaliser builds (None, strings, dictionaries, lists). A dictionary is an
  association list with distinct keys in insertion order; \<open>AList.update\<close> overwrites a
  key where it stands and appends a new one, as a Python \<^verbatim>\<open>dict\<close> does.
  JSON numbers with a fraction are not modelled.
\<close>

datatype pyval =
    PNone
  | PBool bool
  | PInt int
  | PStr string
  | PList "pyval list"
  | PDict "(string \<times> pyval) list"

text \<open>The exceptions the program can raise, as values.\<close>

datatype error = KeyError | TypeError | AttributeError | IndexError | JSONDecodeError | ParseError

text \<open>
  An \<^verbatim>\<open>xml.etree\<close> element: its tag, its attributes (\<^verbatim>\<open>items()\<close>, with
  distinct names), its text (\<^verbatim>\<open>None\<close> when the element holds no character data
  before its first child) and its child elements. \<^verbatim>\<open>len(element)\<close> and the truth
  value of an element are the number of children.
\<close>

datatype element =
  Element (tag: string) (attrib: "(string \<times> string) list") (elem_text: "string option")
    (children: "element list")

section \<open>The XML normaliser\<close>

text \<open>\<^verbatim>\<open>self.update(other)\<close> for a dictionary \<open>other\<close> given by its items, in order.\<close>

definition dict_update :: "(string \<times> pyval) list \<Rightarrow> (string \<times> pyval) list \<Rightarrow> (string \<times> pyval) list" where
  "dict_update self other = foldl (\<lambda>d (k, v). AList.update k v d) self other"

text \<open>\<^verbatim>\<open>dict(element.items())\<close>: the attributes as a dictionary of strings.\<close>

definition dict_items :: "(string \<times> string) list \<Rightarrow> (string \<times> pyval) list" where
  "dict_items kvs = dict_update [] (map (\<lambda>(k, v). (k, PStr v)) kvs)"

text \<open>
  The test both classes use on an element with children:
  \<^verbatim>\<open>len(element) == 1 or element[0].tag != element[1].tag\<close>. It is only evaluated where
  the element has at least one child.
\<close>

fun dict_shaped :: "element list \<Rightarrow> bool" where
  "dict_shaped [] = False"
| "dict_shaped [c] = True"
| "dict_shaped (c0 # c1 # cs) = (tag c0 \<noteq> tag c1)"

text \<open>
  \<open>XmlDictConfig\<close> is the constructor of the dictionary class, \<open>XmlDictConfig_loop\<close> its
  loop over the children with the dictionary built so far, \<open>child_value\<close> what one pass
  of the loop stores under the child's tag, and \<open>XmlListConfig_loop\<close> the loop of the
  list class's constructor over the children of its argument. In that loop the test
  \<^verbatim>\<open>element is not None\<close> holds for every child, so the branch that strips text is
  never taken.
\<close>

fun XmlDictConfig :: "element \<Rightarrow> (string \<times> pyval) list"
  and XmlDictConfig_loop :: "element list \<Rightarrow> (string \<times> pyval) list \<Rightarrow> (string \<times> pyval) list"
  and child_value :: "element \<Rightarrow> pyval"
  and XmlListConfig_loop :: "element list \<Rightarrow> pyval list"
where
  "XmlDictConfig (Element t as tx cs) =
     XmlDictConfig_loop cs (if as \<noteq> [] then dict_update [] (dict_items as) else [])"
| "XmlDictConfig_loop [] self = self"
| "XmlDictConfig_loop (e # es) self =
     XmlDictConfig_loop es (AList.update (tag e) (child_value e) self)"
| "child_value (Element t as tx cs) =
     (if cs \<noteq> [] then
        (let aDict = (if dict_shaped cs then XmlDictConfig (Element t as tx cs)
                      else [(tag (hd cs), PList (XmlListConfig_loop cs))]);
             aDict = (if as \<noteq> [] then dict_update aDict (dict_items as) else aDict)
         in PDict aDict)
      else if as \<noteq> [] then PDict (dict_items as)
      else (case tx of None \<Rightarrow> PNone | Some s \<Rightarrow> PStr s))"
| "XmlListConfig_loop [] = []"
| "XmlListConfig_loop (Element t as tx cs # es) =
     (if cs = [] then PDict (XmlDictConfig (Element t as tx cs))
      else if dict_shaped cs then PDict (XmlDictConfig (Element t as tx cs))
      else PList (XmlListConfig_loop cs)) # XmlListConfig_loop es"

definition XmlListConfig :: "element \<Rightarrow> pyval list" where
  "XmlListConfig aList = XmlListConfig_loop (children aList)"

text \<open>
  \<open>parse_xml\<close>: the XML parser \<^verbatim>\<open>ElementTree.fromstring\<close> is a library, taken as a
  parameter; it returns the root element or raises \<open>ParseError\<close>.
\<close>

definition parse_xml :: "(string \<Rightarrow> error + element) \<Rightarrow> string \<Rightarrow> error + pyval" where
  "parse_xml fromstring xml_string =
     (case fromstring xml_string of
        Inl err \<Rightarrow> Inl err
      | Inr root \<Rightarrow> Inr (PDict (XmlDictConfig root)))"

section \<open>Operations of the language on values\<close>

text \<open>Sequencing of computations that may raise: the first exception wins.\<close>

definition sbind :: "error + 'a \<Rightarrow> ('a \<Rightarrow> error + 'b) \<Rightarrow> error + 'b" where
  "sbind m f = (case m of Inl err \<Rightarrow> Inl err | Inr x \<Rightarrow> f x)"

fun sum_map :: "('a \<Rightarrow> error + 'b) \<Rightarrow> 'a list \<Rightarrow> error + 'b list" where
  "sum_map f [] = Inr []"
| "sum_map f (x # xs) =
     (case f x of
        Inl err \<Rightarrow> Inl err
      | Inr y \<Rightarrow> (case sum_map f xs of Inl err \<Rightarrow> Inl err | Inr ys \<Rightarrow> Inr (y # ys)))"

text \<open>Indexing a sequence of length \<open>n\<close> by an integer; negative indices count from the end.\<close>

definition py_index :: "'a list \<Rightarrow> int \<Rightarrow> error + 'a" where
  "py_index xs i =
     (if 0 \<le> i \<and> i < int (length xs) then Inr (xs ! nat i)
      else if i < 0 \<and> - int (length xs) \<le> i then Inr (xs ! nat (int (length xs) + i))
      else Inl IndexError)"

text \<open>
  \<^verbatim>\<open>obj[key]\<close>. A dictionary's keys are strings, so another hashable key is missing and
  an unhashable one is a \<open>TypeError\<close>; a list or string takes integer indices (a boolean
  is an integer); None, booleans and integers cannot be subscripted.
\<close>

fun getitem :: "pyval \<Rightarrow> pyval \<Rightarrow> error + pyval" where
  "getitem (PDict d) (PStr k) = (case map_of d k of None \<Rightarrow> Inl KeyError | Some v \<Rightarrow> Inr v)"
| "getitem (PDict d) (PList ks) = Inl TypeError"
| "getitem (PDict d) (PDict ks) = Inl TypeError"
| "getitem (PDict d) k = Inl KeyError"
| "getitem (PList xs) (PInt i) = py_index xs i"
| "getitem (PList xs) (PBool b) = py_index xs (if b then 1 else 0)"
| "getitem (PList xs) k = Inl TypeError"
| "getitem (PStr s) (PInt i) = sbind (py_index s i) (\<lambda>c. Inr (PStr [c]))"
| "getitem (PStr s) (PBool b) = sbind (py_index s (if b then 1 else 0)) (\<lambda>c. Inr (PStr [c]))"
| "getitem (PStr s) k = Inl TypeError"
| "getitem v k = Inl TypeError"

text \<open>\<^verbatim>\<open>obj[k1][k2]...\<close> with string keys, looked up from left to right.\<close>

fun getpath :: "pyval \<Rightarrow> string list \<Rightarrow> error + pyval" where
  "getpath v [] = Inr v"
| "getpath v (k # ks) = sbind (getitem v (PStr k)) (\<lambda>w. getpath w ks)"

text \<open>\<^verbatim>\<open>for x in obj\<close>: a dictionary yields its keys, a string its characters.\<close>

fun py_iter :: "pyval \<Rightarrow> error + pyval list" where
  "py_iter (PList xs) = Inr xs"
| "py_iter (PDict d) = Inr (map (\<lambda>kv. PStr (fst kv)) d)"
| "py_iter (PStr s) = Inr (map (\<lambda>c. PStr [c]) s)"
| "py_iter v = Inl TypeError"

text \<open>The truth value of an object, as \<^verbatim>\<open>if obj:\<close> reads it.\<close>

fun truthy :: "pyval \<Rightarrow> bool" where
  "truthy PNone = False"
| "truthy (PBool b) = b"
| "truthy (PInt i) = (i \<noteq> 0)"
| "truthy (PStr s) = (s \<noteq> [])"
| "truthy (PList xs) = (xs \<noteq> [])"
| "truthy (PDict d) = (d \<noteq> [])"

text \<open>
  \<^verbatim>\<open>str.strip()\<close> removes the whitespace characters at both ends. A character is a
  code point below 256; the whitespace among these is 9 to 13, 28 to 32, 133 (next line)
  and 160 (no-break space). Code points from 256 on are not modelled.
\<close>

definition is_space :: "char \<Rightarrow> bool" where
  "is_space c =
     (let n = of_char c :: nat
      in (9 \<le> n \<and> n \<le> 13) \<or> (28 \<le> n \<and> n \<le> 32) \<or> n = 133 \<or> n = 160)"

definition str_strip :: "string \<Rightarrow> string" where
  "str_strip s = rev (dropWhile is_space (rev (dropWhile is_space s)))"

fun py_strip :: "pyval \<Rightarrow> error + string" where
  "py_strip (PStr s) = Inr (str_strip s)"
| "py_strip v = Inl AttributeError"

text \<open>\<^verbatim>\<open>','.join(items)\<close>: every item must be a string.\<close>

fun join_comma :: "string list \<Rightarrow> string" where
  "join_comma [] = []"
| "join_comma [x] = x"
| "join_comma (x # y # ys) = x @ '','' @ join_comma (y # ys)"

fun as_str :: "pyval \<Rightarrow> error + string" where
  "as_str (PStr s) = Inr s"
| "as_str v = Inl TypeError"

definition py_join_comma :: "pyval list \<Rightarrow> error + string" where
  "py_join_comma vs = sbind (sum_map as_str vs) (\<lambda>ss. Inr (join_comma ss))"

text \<open>\<^verbatim>\<open>obj.keys()\<close>: only a dictionary has the method.\<close>

fun py_keys :: "pyval \<Rightarrow> error + string list" where
  "py_keys (PDict d) = Inr (map fst d)"
| "py_keys v = Inl AttributeError"

text \<open>
  \<^verbatim>\<open>re.search(pattern, s)\<close> for a pattern without metacharacters: whether the pattern
  occurs in \<open>s\<close> as a contiguous substring.
\<close>

fun re_search :: "string \<Rightarrow> string \<Rightarrow> bool" where
  "re_search pat [] = (pat = [])"
| "re_search pat (c # cs) = (prefix pat (c # cs) \<or> re_search pat cs)"

text \<open>\<^verbatim>\<open>obj + k\<close> for an integer \<open>k\<close>: only an integer (or a boolean) can be added to.\<close>

fun py_add_int :: "pyval \<Rightarrow> int \<Rightarrow> error + int" where
  "py_add_int (PInt i) k = Inr (i + k)"
| "py_add_int (PBool b) k = Inr ((if b then 1 else 0) + k)"
| "py_add_int v k = Inl TypeError"

text \<open>
  \<^verbatim>\<open>range(start, stop, step)\<close> as the list of its values; the program only uses a
  positive step.
\<close>

function py_range :: "int \<Rightarrow> int \<Rightarrow> int \<Rightarrow> int list" where
  "py_range start stop step =
     (if 0 < step \<and> start < stop then start # py_range (start + step) stop step else [])"
  by pat_completeness auto
termination
  by (relation "measure (\<lambda>(start, stop, step). nat (stop - start))") auto

declare py_range.simps [simp del]

section \<open>The flattener\<close>

text \<open>
  The eighteen experiment-level expressions of \<open>print_experiment_csv\<close>, in the order the
  list display evaluates them, after \<^verbatim>\<open>run['acc']\<close>.
\<close>

definition experiment_paths :: "string list list" where
  "experiment_paths =
     [[''Bioproject''],
      [''Experiment'', ''acc''],
      [''Experiment'', ''name''],
      [''Organism'', ''ScientificName''],
      [''Instrument'', ''ILLUMINA''],
      [''Submitter'', ''center_name''],
      [''Study'', ''acc''],
      [''Study'', ''name''],
      [''Sample'', ''acc''],
      [''Sample'', ''name''],
      [''Summary'', ''Statistics'', ''total_size''],
      [''Summary'', ''Statistics'', ''total_runs''],
      [''Summary'', ''Statistics'', ''total_spots''],
      [''Summary'', ''Statistics'', ''total_bases''],
      [''Library_descriptor'', ''LIBRARY_NAME''],
      [''Library_descriptor'', ''LIBRARY_STRATEGY''],
      [''Library_descriptor'', ''LIBRARY_SOURCE''],
      [''Library_descriptor'', ''LIBRARY_SELECTION'']]"

definition experiment_values :: "pyval \<Rightarrow> error + pyval list" where
  "experiment_values e = sum_map (getpath e) experiment_paths"

text \<open>The list handed to \<^verbatim>\<open>','.join\<close> for one run, and the line printed for it.\<close>

definition row_values :: "pyval \<Rightarrow> pyval \<Rightarrow> error + pyval list" where
  "row_values e run =
     sbind (getitem run (PStr ''acc'')) (\<lambda>acc.
     sbind (experiment_values e) (\<lambda>vs. Inr (acc # vs)))"

definition row_line :: "pyval \<Rightarrow> pyval \<Rightarrow> error + string" where
  "row_line e run = sbind (row_values e run) py_join_comma"

text \<open>
  The loop \<^verbatim>\<open>for run in e['runs']\<close>: the lines printed, and the exception that ended
  the loop if one did. Lines printed before an exception stay printed.
\<close>

fun print_runs :: "pyval \<Rightarrow> pyval list \<Rightarrow> string list \<times> error option" where
  "print_runs e [] = ([], None)"
| "print_runs e (run # runs) =
     (case row_line e run of
        Inl err \<Rightarrow> ([], Some err)
      | Inr line \<Rightarrow> (let (ls, r) = print_runs e runs in (line # ls, r)))"

definition print_experiment_csv :: "pyval \<Rightarrow> string list \<times> error option" where
  "print_experiment_csv e =
     (case sbind (getitem e (PStr ''runs'')) py_iter of
        Inl err \<Rightarrow> ([], Some err)
      | Inr runs \<Rightarrow> print_runs e runs)"

section \<open>The pipeline\<close>

text \<open>
  What the program does to the outside, in order: a request sent with
  \<^verbatim>\<open>requests.get(url, params)\<close>, a line printed, and a value printed through
  \<^verbatim>\<open>json.dumps\<close> (the serialisation is the library's and is not modelled).
\<close>

datatype event = Request string pyval | Print string | PrintJson pyval

text \<open>
  How a run ends: \<open>main\<close> returns, \<^verbatim>\<open>exit(1)\<close> is called, or an exception that
  nothing catches ends the process.
\<close>

datatype outcome = Returned | Exit int | Raised error

text \<open>
  A response of the transport: its status, its body, and what \<^verbatim>\<open>json()\<close> makes of
  the body (\<open>None\<close> when it raises \<open>JSONDecodeError\<close>).
\<close>

record response =
  status_code :: int
  resp_text :: string
  resp_json :: "pyval option"

text \<open>
  The collaborators outside the program: the transport, a function of the request that
  always answers (a connection that fails is not modelled), and the XML parser.
\<close>

record world =
  requests_get :: "string \<Rightarrow> pyval \<Rightarrow> response"
  fromstring :: "string \<Rightarrow> error + element"

text \<open>
  The arguments \<open>main\<close> reads. \<open>max_samples\<close> is the integer default, or whatever the
  caller put there: the command line parser stores a string, for which
  \<^verbatim>\<open>args.max_samples + 1\<close> raises.
\<close>

record args =
  project_id :: pyval
  max_samples :: pyval

text \<open>The variables of \<open>main\<close> that the page loop changes, and the events so far.\<close>

record state =
  biosample_data :: pyval
  experiments :: "pyval list"
  trace :: "event list"

definition base_url :: string where
  "base_url = ''https://eutils.ncbi.nlm.nih.gov/entrez/eutils''"

definition esearch_url :: string where
  "esearch_url = base_url @ ''/esearch.fcgi?''"

definition esummary_url :: string where
  "esummary_url = base_url @ ''/esummary.fcgi?''"

definition project_query_params :: "args \<Rightarrow> pyval" where
  "project_query_params a =
     PDict [(''db'', PStr ''sra''), (''retmode'', PStr ''json''), (''usehistory'', PStr ''y''),
            (''term'', project_id a)]"

definition biosample_query_params :: "pyval \<Rightarrow> int \<Rightarrow> pyval" where
  "biosample_query_params project_query_webenv retstart =
     PDict [(''db'', PStr ''sra''), (''retmode'', PStr ''json''), (''query_key'', PStr ''1''),
            (''WebEnv'', project_query_webenv), (''retstart'', PInt retstart),
            (''retmax'', PInt 500)]"

definition output_fields :: "string list" where
  "output_fields =
     [''run_accession'',
      ''bioproject_accession'',
      ''experiment_accession'',
      ''experiment_title'',
      ''organism_name'',
      ''instrument,submitter'',
      ''study_accession'',
      ''study_title'',
      ''sample_accession'',
      ''sample_title'',
      ''total_size_mb'',
      ''total_runs'',
      ''total_spots'',
      ''total_bases'',
      ''library_name'',
      ''library_strategy'',
      ''library_source'',
      ''library_selection'']"

text \<open>The pattern of the error test: the seven characters \<^verbatim>\<open>"error":\<close>.\<close>

definition error_marker :: string where
  "error_marker = ''\"error\":''"

text \<open>
  The search call: the continuation token, \<open>PNone\<close> when the status is not 200. An
  exception here is caught by nothing.
\<close>

definition search_webenv :: "world \<Rightarrow> args \<Rightarrow> error + pyval" where
  "search_webenv w a =
     (let project_response = requests_get w esearch_url (project_query_params a)
      in if status_code project_response = 200 then
           (case resp_json project_response of
              None \<Rightarrow> Inl JSONDecodeError
            | Some project_data \<Rightarrow> getpath project_data [''esearchresult'', ''webenv''])
         else Inr PNone)"

text \<open>
  The first part of the loop body: the summary request, sent only with a token, and the
  refresh of \<open>biosample_data\<close>, made only when the status is 200 and the body does not
  hold the error marker. Nothing is done otherwise: the payload of the page before stays.
\<close>

definition fetch_page :: "world \<Rightarrow> pyval \<Rightarrow> int \<Rightarrow> state \<Rightarrow> state \<times> outcome option" where
  "fetch_page w project_query_webenv retstart st =
     (if truthy project_query_webenv then
        (let params = biosample_query_params project_query_webenv retstart;
             biosample_response = requests_get w esummary_url params;
             st1 = st\<lparr>trace := trace st @ [Request esummary_url params]\<rparr>
         in if status_code biosample_response = 200
               \<and> \<not> re_search error_marker (resp_text biosample_response) then
              (case resp_json biosample_response of
                 Some v \<Rightarrow> (st1\<lparr>biosample_data := v\<rparr>, None)
               | None \<Rightarrow>
                   (st1\<lparr>trace := trace st1 @ [PrintJson params, Print (resp_text biosample_response)]\<rparr>,
                    Some (Exit 1)))
            else (st1, None))
      else (st, None))"

text \<open>
  One pass of the loop over the result identifiers, up to the platform filter:
  \<open>assemble_record\<close> builds \<open>parsed_experiment\<close> with its \<open>runs\<close> entry, \<open>platform_filter\<close> is
  the test of the \<^verbatim>\<open>if\<close>, \<open>process_uid\<close> the whole pass on the list \<open>experiments\<close>.
\<close>

definition wrap_root :: "string \<Rightarrow> string" where
  "wrap_root s = ''<root>'' @ s @ ''</root>''"

definition assemble_record :: "world \<Rightarrow> pyval \<Rightarrow> pyval \<Rightarrow> error + pyval" where
  "assemble_record w data uid =
     sbind (getitem data (PStr ''result'')) (\<lambda>result.
     sbind (getitem result uid) (\<lambda>entry.
     sbind (getitem entry (PStr ''expxml'')) (\<lambda>expxml.
     sbind (py_strip expxml) (\<lambda>expxml_str.
     sbind (parse_xml (fromstring w) (wrap_root expxml_str)) (\<lambda>parsed_experiment.
     sbind (getitem data (PStr ''result'')) (\<lambda>result.
     sbind (getitem result uid) (\<lambda>entry.
     sbind (getitem entry (PStr ''runs'')) (\<lambda>runs.
     sbind (py_strip runs) (\<lambda>runs_str.
     sbind (parse_xml (fromstring w) (wrap_root runs_str)) (\<lambda>parsed_runs.
     sbind (getitem parsed_runs (PStr ''Run'')) (\<lambda>run.
     (case parsed_experiment of
        PDict d \<Rightarrow> Inr (PDict (AList.update ''runs'' (PList [run]) d))
      | _ \<Rightarrow> Inl TypeError))))))))))))"

definition platform_filter :: "pyval \<Rightarrow> error + bool" where
  "platform_filter parsed_experiment =
     sbind (getitem parsed_experiment (PStr ''Instrument'')) (\<lambda>instrument.
     sbind (py_keys instrument) (\<lambda>keys. Inr (''ILLUMINA'' \<in> set keys)))"

definition process_uid :: "world \<Rightarrow> pyval \<Rightarrow> pyval \<Rightarrow> pyval list \<Rightarrow> error + pyval list" where
  "process_uid w data uid exps =
     sbind (assemble_record w data uid) (\<lambda>parsed_experiment.
     sbind (platform_filter parsed_experiment) (\<lambda>keep.
     Inr (if keep then exps @ [parsed_experiment] else exps)))"

fun process_uids :: "world \<Rightarrow> pyval \<Rightarrow> pyval list \<Rightarrow> pyval list \<Rightarrow> error + pyval list" where
  "process_uids w data [] exps = Inr exps"
| "process_uids w data (uid # uids) exps =
     sbind (process_uid w data uid exps) (process_uids w data uids)"

text \<open>The loop \<^verbatim>\<open>for experiment in experiments\<close>, which stands inside the page loop.\<close>

fun print_experiments :: "pyval list \<Rightarrow> string list \<times> error option" where
  "print_experiments [] = ([], None)"
| "print_experiments (e # es) =
     (case print_experiment_csv e of
        (ls, Some err) \<Rightarrow> (ls, Some err)
      | (ls, None) \<Rightarrow> (let (ls', r) = print_experiments es in (ls @ ls', r)))"

text \<open>
  One pass of the page loop. Only a \<open>KeyError\<close> on \<^verbatim>\<open>biosample_data['result']['uids']\<close>
  is caught (the payload is dumped and the program exits); any other exception ends the
  run uncaught.
\<close>

definition page_step :: "world \<Rightarrow> pyval \<Rightarrow> int \<Rightarrow> state \<Rightarrow> state \<times> outcome option" where
  "page_step w project_query_webenv retstart st =
     (case fetch_page w project_query_webenv retstart st of
        (st1, Some out) \<Rightarrow> (st1, Some out)
      | (st1, None) \<Rightarrow>
          (case getpath (biosample_data st1) [''result'', ''uids''] of
             Inl KeyError \<Rightarrow>
               (st1\<lparr>trace := trace st1 @ [PrintJson (biosample_data st1)]\<rparr>, Some (Exit 1))
           | Inl err \<Rightarrow> (st1, Some (Raised err))
           | Inr uids \<Rightarrow>
               (case sbind (py_iter uids)
                       (\<lambda>us. process_uids w (biosample_data st1) us (experiments st1)) of
                  Inl err \<Rightarrow> (st1, Some (Raised err))
                | Inr exps \<Rightarrow>
                    (let (ls, r) = print_experiments exps;
                         st2 = st1\<lparr>experiments := exps, trace := trace st1 @ map Print ls\<rparr>
                     in (st2, map_option Raised r)))))"

fun main_loop :: "world \<Rightarrow> pyval \<Rightarrow> int list \<Rightarrow> state \<Rightarrow> state \<times> outcome" where
  "main_loop w project_query_webenv [] st = (st, Returned)"
| "main_loop w project_query_webenv (retstart # intervals) st =
     (case page_step w project_query_webenv retstart st of
        (st1, Some out) \<Rightarrow> (st1, out)
      | (st1, None) \<Rightarrow> main_loop w project_query_webenv intervals st1)"

definition main :: "world \<Rightarrow> args \<Rightarrow> event list \<times> outcome" where
  "main w a =
     (let tr0 = [Request esearch_url (project_query_params a)]
      in case search_webenv w a of
           Inl err \<Rightarrow> (tr0, Raised err)
         | Inr project_query_webenv \<Rightarrow>
             (case py_add_int (max_samples a) 1 of
                Inl err \<Rightarrow> (tr0, Raised err)
              | Inr stop \<Rightarrow>
                  (let intervals = py_range 0 stop 500;
                       st0 = \<lparr>biosample_data = PNone, experiments = [],
                              trace = tr0 @ [Print (join_comma output_fields)]\<rparr>;
                       (st, out) = main_loop w project_query_webenv intervals st0
                   in (trace st, out))))"

text \<open>The requests and the printed lines of a trace.\<close>

fun requests_of :: "event list \<Rightarrow> (string \<times> pyval) list" where
  "requests_of [] = []"
| "requests_of (Request url params # evs) = (url, params) # requests_of evs"
| "requests_of (ev # evs) = requests_of evs"

fun printed :: "event list \<Rightarrow> string list" where
  "printed [] = []"
| "printed (Print line # evs) = line # printed evs"
| "printed (ev # evs) = printed evs"

section \<open>Concrete inputs\<close>

text \<open>
  The fragment \<^verbatim>\<open><root><x>1</x><x>2</x></root>\<close>, the fragment with the two equal tags one
  level down, and a parser that knows both.
\<close>

definition x12_root :: element where
  "x12_root =
     Element ''root'' [] None [Element ''x'' [] (Some ''1'') [], Element ''x'' [] (Some ''2'') []]"

definition a_x12_root :: element where
  "a_x12_root =
     Element ''root'' [] None
       [Element ''a'' [] None [Element ''x'' [] (Some ''1'') [], Element ''x'' [] (Some ''2'') []]]"

definition x12_fromstring :: "string \<Rightarrow> error + element" where
  "x12_fromstring s =
     (if s = ''<root><x>1</x><x>2</x></root>'' then Inr x12_root
      else if s = ''<root><a><x>1</x><x>2</x></a></root>'' then Inr a_x12_root
      else Inl ParseError)"

text \<open>
  An experiment summary as the archive sends it, numbered \<open>n\<close> and sequenced on
  \<open>platform\<close>, and the element the parser returns for it inside the synthetic root.
\<close>

definition scn_expxml :: "string \<Rightarrow> string \<Rightarrow> string" where
  "scn_expxml n platform =
     ''<Summary><Title>T'' @ n @ ''</Title><Platform instrument_model='M'' @ n @ '''>''
       @ platform @ ''</Platform><Statistics total_runs='1' total_spots='10' total_bases='20' total_size='30'/></Summary>''
     @ ''<Submitter center_name='C'' @ n @ '''/>''
     @ ''<Experiment acc='SRX'' @ n @ ''' name='E'' @ n @ '''/>''
     @ ''<Study acc='SRP'' @ n @ ''' name='S'' @ n @ '''/>''
     @ ''<Organism ScientificName='Ecoli'/>''
     @ ''<Sample acc='SRS'' @ n @ ''' name='N'' @ n @ '''/>''
     @ ''<Instrument '' @ platform @ ''='M'' @ n @ '''/>''
     @ ''<Library_descriptor><LIBRARY_NAME>L'' @ n @ ''</LIBRARY_NAME><LIBRARY_STRATEGY>WGS</LIBRARY_STRATEGY>''
     @ ''<LIBRARY_SOURCE>GENOMIC</LIBRARY_SOURCE><LIBRARY_SELECTION>RANDOM</LIBRARY_SELECTION></Library_descriptor>''
     @ ''<Bioproject>PRJ1</Bioproject>''"

definition scn_exp_root :: "string \<Rightarrow> string \<Rightarrow> element" where
  "scn_exp_root n platform =
     Element ''root'' [] None
       [Element ''Summary'' [] None
          [Element ''Title'' [] (Some (''T'' @ n)) [],
           Element ''Platform'' [(''instrument_model'', ''M'' @ n)] (Some platform) [],
           Element ''Statistics''
             [(''total_runs'', ''1''), (''total_spots'', ''10''), (''total_bases'', ''20''),
              (''total_size'', ''30'')] None []],
        Element ''Submitter'' [(''center_name'', ''C'' @ n)] None [],
        Element ''Experiment'' [(''acc'', ''SRX'' @ n), (''name'', ''E'' @ n)] None [],
        Element ''Study'' [(''acc'', ''SRP'' @ n), (''name'', ''S'' @ n)] None [],
        Element ''Organism'' [(''ScientificName'', ''Ecoli'')] None [],
        Element ''Sample'' [(''acc'', ''SRS'' @ n), (''name'', ''N'' @ n)] None [],
        Element ''Instrument'' [(platform, ''M'' @ n)] None [],
        Element ''Library_descriptor'' [] None
          [Element ''LIBRARY_NAME'' [] (Some (''L'' @ n)) [],
           Element ''LIBRARY_STRATEGY'' [] (Some ''WGS'') [],
           Element ''LIBRARY_SOURCE'' [] (Some ''GENOMIC'') [],
           Element ''LIBRARY_SELECTION'' [] (Some ''RANDOM'') []],
        Element ''Bioproject'' [] (Some ''PRJ1'') []]"

text \<open>The run list of experiment \<open>n\<close>, with one run, and its element.\<close>

definition scn_runs :: "string \<Rightarrow> string" where
  "scn_runs n = ''<Run acc='SRR'' @ n @ ''' total_spots='10'/>''"

definition scn_runs_root :: "string \<Rightarrow> element" where
  "scn_runs_root n =
     Element ''root'' [] None
       [Element ''Run'' [(''acc'', ''SRR'' @ n), (''total_spots'', ''10'')] None []]"

text \<open>
  What the assembler builds for experiment \<open>n\<close>: the normalised summary with the list
  \<open>runs\<close> appended, and the line the flattener prints for it.
\<close>

definition scn_record :: "string \<Rightarrow> string \<Rightarrow> pyval" where
  "scn_record n platform =
     PDict
       [(''Summary'', PDict
          [(''Title'', PStr (''T'' @ n)),
           (''Platform'', PDict [(''instrument_model'', PStr (''M'' @ n))]),
           (''Statistics'', PDict
              [(''total_runs'', PStr ''1''), (''total_spots'', PStr ''10''),
               (''total_bases'', PStr ''20''), (''total_size'', PStr ''30'')])]),
        (''Submitter'', PDict [(''center_name'', PStr (''C'' @ n))]),
        (''Experiment'', PDict [(''acc'', PStr (''SRX'' @ n)), (''name'', PStr (''E'' @ n))]),
        (''Study'', PDict [(''acc'', PStr (''SRP'' @ n)), (''name'', PStr (''S'' @ n))]),
        (''Organism'', PDict [(''ScientificName'', PStr ''Ecoli'')]),
        (''Sample'', PDict [(''acc'', PStr (''SRS'' @ n)), (''name'', PStr (''N'' @ n))]),
        (''Instrument'', PDict [(platform, PStr (''M'' @ n))]),
        (''Library_descriptor'', PDict
           [(''LIBRARY_NAME'', PStr (''L'' @ n)), (''LIBRARY_STRATEGY'', PStr ''WGS''),
            (''LIBRARY_SOURCE'', PStr ''GENOMIC''), (''LIBRARY_SELECTION'', PStr ''RANDOM'')]),
        (''Bioproject'', PStr ''PRJ1''),
        (''runs'', PList [PDict [(''acc'', PStr (''SRR'' @ n)), (''total_spots'', PStr ''10'')]])]"

definition scn_row :: "string \<Rightarrow> string" where
  "scn_row n =
     ''SRR'' @ n @ '',PRJ1,SRX'' @ n @ '',E'' @ n @ '',Ecoli,M'' @ n @ '',C'' @ n @ '',SRP'' @ n
       @ '',S'' @ n @ '',SRS'' @ n @ '',N'' @ n @ '',30,1,10,20,L'' @ n @ '',WGS,GENOMIC,RANDOM''"

text \<open>A record of experiment 1 with two runs attached.\<close>

definition two_run_record :: pyval where
  "two_run_record =
     (case scn_record ''1'' ''ILLUMINA'' of
        PDict d \<Rightarrow>
          PDict (AList.update ''runs''
            (PList [PDict [(''acc'', PStr ''SRR1'')], PDict [(''acc'', PStr ''SRR9'')]]) d)
      | v \<Rightarrow> v)"

text \<open>A page that lists no result.\<close>

definition scn_empty_page :: response where
  "scn_empty_page =
     \<lparr>status_code = 200, resp_text = ''{\"result\":{\"uids\":[]}}'',
      resp_json = Some (PDict [(''result'', PDict [(''uids'', PList [])])])\<rparr>"

definition empty_pages :: "(int \<times> response) list" where
  "empty_pages = [(0, scn_empty_page), (500, scn_empty_page), (1000, scn_empty_page)]"

text \<open>The parser on the fragments of experiments 1 and 2 (ILLUMINA) and 3 (PACBIO_SMRT).\<close>

definition scn_fromstring :: "string \<Rightarrow> error + element" where
  "scn_fromstring s =
     (case map_of
        [(wrap_root (scn_expxml ''1'' ''ILLUMINA''), scn_exp_root ''1'' ''ILLUMINA''),
         (wrap_root (scn_runs ''1''), scn_runs_root ''1''),
         (wrap_root (scn_expxml ''2'' ''ILLUMINA''), scn_exp_root ''2'' ''ILLUMINA''),
         (wrap_root (scn_runs ''2''), scn_runs_root ''2''),
         (wrap_root (scn_expxml ''3'' ''PACBIO_SMRT''), scn_exp_root ''3'' ''PACBIO_SMRT''),
         (wrap_root (scn_runs ''3''), scn_runs_root ''3'')] s of
        Some root \<Rightarrow> Inr root
      | None \<Rightarrow> Inl ParseError)"

text \<open>
  A summary page listing the experiments \<open>nps\<close> (each a number with its platform) under
  the result identifiers \<open>10n\<close>: the body and what \<^verbatim>\<open>json()\<close> returns for it.
\<close>

definition scn_entry_text :: "string \<times> string \<Rightarrow> string" where
  "scn_entry_text np =
     '',\"10'' @ fst np @ ''\":{\"expxml\":\"'' @ scn_expxml (fst np) (snd np)
       @ ''\",\"runs\":\"'' @ scn_runs (fst np) @ ''\"}''"

definition scn_page_text :: "(string \<times> string) list \<Rightarrow> string" where
  "scn_page_text nps =
     ''{\"result\":{\"uids\":['' @ join_comma (map (\<lambda>np. ''\"10'' @ fst np @ ''\"'') nps) @ '']''
       @ concat (map scn_entry_text nps) @ ''}}''"

definition scn_page_json :: "(string \<times> string) list \<Rightarrow> pyval" where
  "scn_page_json nps =
     PDict [(''result'',
       PDict ((''uids'', PList (map (\<lambda>np. PStr (''10'' @ fst np)) nps))
         # map (\<lambda>np. (''10'' @ fst np,
                  PDict [(''expxml'', PStr (scn_expxml (fst np) (snd np))),
                         (''runs'', PStr (scn_runs (fst np)))])) nps))]"

definition scn_page :: "(string \<times> string) list \<Rightarrow> response" where
  "scn_page nps =
     \<lparr>status_code = 200, resp_text = scn_page_text nps, resp_json = Some (scn_page_json nps)\<rparr>"

text \<open>The answer to the search call, with the token \<open>MCID_1\<close>.\<close>

definition scn_search :: response where
  "scn_search =
     \<lparr>status_code = 200,
      resp_text = ''{\"esearchresult\":{\"count\":\"2\",\"querykey\":\"1\",\"webenv\":\"MCID_1\"}}'',
      resp_json = Some (PDict [(''esearchresult'',
        PDict [(''count'', PStr ''2''), (''querykey'', PStr ''1''), (''webenv'', PStr ''MCID_1'')])])\<rparr>"

text \<open>An error answer of the API, sent with status 200.\<close>

definition scn_api_error :: response where
  "scn_api_error =
     \<lparr>status_code = 200,
      resp_text = ''{\"error\":\"API rate limit exceeded\",\"count\":\"4\"}'',
      resp_json = Some (PDict [(''error'', PStr ''API rate limit exceeded''), (''count'', PStr ''4'')])\<rparr>"

text \<open>
  A page without an API error whose payload holds a key named \<open>error\<close>: the archive's
  note for an identifier it has no summary for.
\<close>

definition scn_uid_note :: response where
  "scn_uid_note =
     \<lparr>status_code = 200,
      resp_text = ''{\"result\":{\"uids\":[\"7\"],\"7\":{\"uid\":\"7\",\"error\":\"cannot get document summary\"}}}'',
      resp_json = Some (PDict [(''result'',
        PDict [(''uids'', PList [PStr ''7'']),
               (''7'', PDict [(''uid'', PStr ''7''), (''error'', PStr ''cannot get document summary'')])])])\<rparr>"

text \<open>A transport that answers the search call and serves the given pages by \<open>retstart\<close>.\<close>

definition scn_get :: "(int \<times> response) list \<Rightarrow> string \<Rightarrow> pyval \<Rightarrow> response" where
  "scn_get pages url params =
     (if url = esearch_url then scn_search
      else (case getitem params (PStr ''retstart'') of
              Inr (PInt retstart) \<Rightarrow>
                (case map_of pages retstart of
                   Some r \<Rightarrow> r
                 | None \<Rightarrow> \<lparr>status_code = 404, resp_text = [], resp_json = None\<rparr>)
            | _ \<Rightarrow> \<lparr>status_code = 400, resp_text = [], resp_json = None\<rparr>))"

definition scn_world :: "(int \<times> response) list \<Rightarrow> world" where
  "scn_world pages = \<lparr>requests_get = scn_get pages, fromstring = scn_fromstring\<rparr>"

definition scn_args :: "int \<Rightarrow> args" where
  "scn_args m = \<lparr>project_id = PStr ''PRJ1'', max_samples = PInt m\<rparr>"

text \<open>Two pages with one ILLUMINA experiment each.\<close>

definition two_pages :: "(int \<times> response) list" where
  "two_pages = [(0, scn_page [(''1'', ''ILLUMINA'')]), (500, scn_page [(''2'', ''ILLUMINA'')])]"

text \<open>Three pages, the second an error answer of the API.\<close>

definition error_second_page :: "(int \<times> response) list" where
  "error_second_page =
     [(0, scn_page [(''1'', ''ILLUMINA'')]), (500, scn_api_error),
      (1000, scn_page [(''2'', ''ILLUMINA'')])]"

text \<open>One page with an ILLUMINA experiment and a PACBIO_SMRT experiment.\<close>

definition mixed_page :: "(int \<times> response) list" where
  "mixed_page = [(0, scn_page [(''1'', ''ILLUMINA''), (''3'', ''PACBIO_SMRT'')])]"

text \<open>A parser for a fragment of three leaf elements: padded text, blank text, no text.\<close>

definition leaf_fromstring :: "string \<Rightarrow> error + element" where
  "leaf_fromstring s =
     (if s = ''<root><a> 1 </a><b>  </b><c/></root>'' then
        Inr (Element ''root'' [] None
          [Element ''a'' [] (Some '' 1 '') [], Element ''b'' [] (Some ''  '') [],
           Element ''c'' [] None []])
      else Inl ParseError)"

text \<open>
  The row schema in the words of the specification (section 4.4), for comparison with
  the header the program prints.
\<close>

definition spec_row_schema :: "string list" where
  "spec_row_schema =
     [''run_accession'', ''bioproject_accession'', ''experiment_accession'', ''experiment_title'',
      ''organism_name'', ''instrument'', ''submitter_center'', ''study_accession'', ''study_title'',
      ''sample_accession'', ''sample_title'', ''total_size'', ''total_runs'', ''total_spots'',
      ''total_bases'', ''library_name'', ''library_strategy'', ''library_source'',
      ''library_selection'']"

section \<open>The normaliser: lemmas and claims\<close>

lemma update_fresh: "k \<notin> fst ` set al \<Longrightarrow> AList.update k v al = al @ [(k, v)]"
  by (induction al) auto

lemma dict_update_distinct:
  "distinct (map fst (acc @ xs)) \<Longrightarrow> dict_update acc xs = acc @ xs"
proof (induction xs arbitrary: acc)
  case Nil
  then show ?case by (simp add: dict_update_def)
next
  case (Cons x xs)
  obtain k v where x: "x = (k, v)" by (cases x)
  from Cons.prems x have fresh: "k \<notin> fst ` set acc" by auto
  from Cons.prems x have d: "distinct (map fst ((acc @ [(k, v)]) @ xs))" by auto
  have "dict_update acc (x # xs) = dict_update (AList.update k v acc) xs"
    by (simp add: dict_update_def x)
  also have "\<dots> = dict_update (acc @ [(k, v)]) xs"
    by (simp add: update_fresh [OF fresh])
  also have "\<dots> = (acc @ [(k, v)]) @ xs"
    by (rule Cons.IH [OF d])
  finally show ?case by (simp add: x)
qed

lemma dict_items_distinct:
  "distinct (map fst as) \<Longrightarrow> dict_items as = map (\<lambda>(k, v). (k, PStr v)) as"
proof -
  assume d: "distinct (map fst as)"
  have "map fst (map (\<lambda>(k, v). (k, PStr v)) as) = map fst as"
    by (induction as) auto
  with d have "distinct (map fst ([] @ map (\<lambda>(k, v). (k, PStr v)) as))"
    by (simp del: map_map)
  from dict_update_distinct [OF this] show ?thesis by (simp add: dict_items_def)
qed

lemma dict_update_Nil: "dict_update d [] = d"
  by (simp add: dict_update_def)

lemma dict_items_Nil: "dict_items [] = []"
  by (simp add: dict_items_def dict_update_def)

lemma loop_other_key:
  "k \<notin> tag ` set es \<Longrightarrow> map_of (XmlDictConfig_loop es self) k = map_of self k"
  by (induction es arbitrary: self) (auto simp: update_conv')

lemma loop_last_wins:
  "tag c \<notin> tag ` set post \<Longrightarrow>
   map_of (XmlDictConfig_loop (pre @ c # post) self) (tag c) = Some (child_value c)"
  by (induction pre arbitrary: self) (auto simp: loop_other_key update_conv')

lemma dict_last_wins:
  "tag c \<notin> tag ` set post \<Longrightarrow>
   map_of (XmlDictConfig (Element t as tx (pre @ c # post))) (tag c) = Some (child_value c)"
  by (simp add: loop_last_wins)

lemma loop_keys:
  "fst ` set (XmlDictConfig_loop es self) = fst ` set self \<union> tag ` set es"
  by (induction es arbitrary: self) (auto simp: AList.dom_update)

text \<open>
  Claim C1, as stated, fails. Normalising \<^verbatim>\<open><root><x>1</x><x>2</x></root>\<close> does not
  yield the key \<open>x\<close> mapped to a list of the two scalars: the constructor never
  applies the list test to the element it is given.
\<close>

theorem list_rule_at_root_counterexample:
  "parse_xml x12_fromstring ''<root><x>1</x><x>2</x></root>''
     \<noteq> Inr (PDict [(''x'', PList [PStr ''1'', PStr ''2''])])"
  by (simp add: parse_xml_def x12_fromstring_def x12_root_def)

text \<open>
  Claim C1, amended. Normalising \<^verbatim>\<open><root><x>1</x><x>2</x></root>\<close> yields the mapping
  with the single key \<open>x\<close> mapped to the scalar \<open>2\<close>: at the element handed to the
  normaliser every child is stored under its own tag and the last child of a tag wins.
  The list shape is decided one level down: a child element whose first two children
  share a tag is stored as a mapping from that tag to the list built from its children
  (with the child's attributes merged in).
\<close>

theorem list_rule_one_level_down:
  "parse_xml x12_fromstring ''<root><x>1</x><x>2</x></root>'' = Inr (PDict [(''x'', PStr ''2'')])
   \<and> (tag c \<notin> tag ` set post \<longrightarrow>
        map_of (XmlDictConfig (Element t as tx (pre @ c # post))) (tag c) = Some (child_value c))
   \<and> (tag c0 = tag c1 \<longrightarrow>
        child_value (Element t' as' tx' (c0 # c1 # cs)) =
          PDict (dict_update [(tag c0, PList (XmlListConfig (Element t' as' tx' (c0 # c1 # cs))))]
                   (dict_items as')))"
proof (intro conjI impI)
  show "parse_xml x12_fromstring ''<root><x>1</x><x>2</x></root>'' = Inr (PDict [(''x'', PStr ''2'')])"
    by (simp add: parse_xml_def x12_fromstring_def x12_root_def)
next
  assume "tag c \<notin> tag ` set post"
  then show "map_of (XmlDictConfig (Element t as tx (pre @ c # post))) (tag c) = Some (child_value c)"
    by (rule dict_last_wins)
next
  assume "tag c0 = tag c1"
  then show "child_value (Element t' as' tx' (c0 # c1 # cs)) =
          PDict (dict_update [(tag c0, PList (XmlListConfig (Element t' as' tx' (c0 # c1 # cs))))]
                   (dict_items as'))"
    by (cases "as' = []") (simp_all add: XmlListConfig_def Let_def dict_items_Nil dict_update_Nil)
qed

text \<open>Witness for C1: the two fragments, the second with the equal tags one level down.\<close>

theorem list_rule_one_level_down_witness:
  "map_of (XmlDictConfig x12_root) ''x'' = Some (PStr ''2'')
   \<and> parse_xml x12_fromstring ''<root><a><x>1</x><x>2</x></a></root>''
       = Inr (PDict [(''a'', PDict [(''x'', PList [PDict [], PDict []])])])"
  using list_rule_one_level_down
    [where c = "Element ''x'' [] (Some ''2'') []" and post = "[]" and t = "''root''" and as = "[]"
       and tx = None and pre = "[Element ''x'' [] (Some ''1'') []]"
       and ?c0.0 = "Element ''x'' [] (Some ''1'') []" and ?c1.0 = "Element ''x'' [] (Some ''2'') []"
       and t' = "''a''" and as' = "[]" and tx' = None and cs = "[]"]
  by (simp add: x12_root_def parse_xml_def x12_fromstring_def a_x12_root_def XmlListConfig_def
        dict_update_def dict_items_def)

text \<open>
  Claim C8, as stated, fails: the text of a leaf element without attributes is stored
  as it is, not trimmed, and text made of spaces is not turned into None.
\<close>

theorem leaf_text_counterexample:
  "map_of (XmlDictConfig (Element ''root'' [] None [Element ''a'' [] (Some '' 1 '') []])) ''a''
     \<noteq> Some (PStr (str_strip '' 1 ''))
   \<and> map_of (XmlDictConfig (Element ''root'' [] None [Element ''b'' [] (Some ''  '') []])) ''b''
     \<noteq> Some PNone"
  by (simp add: str_strip_def is_space_def)

lemma dict_update_other:
  "k \<notin> fst ` set kvs \<Longrightarrow> map_of (dict_update d kvs) k = map_of d k"
proof (induction kvs arbitrary: d)
  case Nil
  then show ?case by (simp add: dict_update_def)
next
  case (Cons kv kvs)
  obtain k' v' where kv: "kv = (k', v')" by (cases kv)
  from Cons.prems kv have ne: "k' \<noteq> k" and rest: "k \<notin> fst ` set kvs" by auto
  have "dict_update d (kv # kvs) = dict_update (AList.update k' v' d) kvs"
    by (simp add: dict_update_def kv)
  with Cons.IH [OF rest, of "AList.update k' v' d"] ne show ?case
    by (simp add: update_conv')
qed

lemma dict_update_keys: "fst ` set (dict_update d kvs) = fst ` set d \<union> fst ` set kvs"
proof (induction kvs arbitrary: d)
  case Nil
  then show ?case by (simp add: dict_update_def)
next
  case (Cons kv kvs)
  obtain k' v' where kv: "kv = (k', v')" by (cases kv)
  have "dict_update d (kv # kvs) = dict_update (AList.update k' v' d) kvs"
    by (simp add: dict_update_def kv)
  with Cons.IH [of "AList.update k' v' d"] kv show ?case
    by (auto simp: AList.dom_update)
qed

lemma dict_items_keys: "fst ` set (dict_items as) = fst ` set as"
  by (force simp: dict_items_def dict_update_keys)

text \<open>
  Claim C8, amended. Take an element with no children and no attributes that is the last
  child with its tag. If its parent is the element handed to the normaliser, or a nested
  element normalised as a mapping that has no attribute named like the leaf's tag, then
  the value stored under the leaf's tag is the leaf's text exactly as the parser gives
  it, not trimmed, and None only when the leaf has no text at all.
\<close>

theorem leaf_text_verbatim:
  assumes "children c = []" and "attrib c = []" and "tag c \<notin> tag ` set post"
  shows "(parse s = Inr (Element t as tx (pre @ c # post)) \<longrightarrow>
            (\<exists>d. parse_xml parse s = Inr (PDict d)
               \<and> map_of d (tag c) = Some (case elem_text c of None \<Rightarrow> PNone | Some x \<Rightarrow> PStr x)))
     \<and> (dict_shaped (pre @ c # post) \<longrightarrow> tag c \<notin> fst ` set as \<longrightarrow>
            (\<exists>d. child_value (Element t as tx (pre @ c # post)) = PDict d
               \<and> map_of d (tag c) = Some (case elem_text c of None \<Rightarrow> PNone | Some x \<Rightarrow> PStr x)))"
proof (intro conjI impI)
  let ?p = "Element t as tx (pre @ c # post)"
  let ?v = "case elem_text c of None \<Rightarrow> PNone | Some x \<Rightarrow> PStr x"
  from assms(1,2) have cv: "child_value c = ?v"
    by (cases c) simp
  have raw: "map_of (XmlDictConfig ?p) (tag c) = Some ?v"
    using dict_last_wins [OF assms(3), of t as tx pre] cv by simp
  {
    assume "parse s = Inr ?p"
    then have "parse_xml parse s = Inr (PDict (XmlDictConfig ?p))"
      by (simp add: parse_xml_def)
    with raw show "\<exists>d. parse_xml parse s = Inr (PDict d) \<and> map_of d (tag c) = Some ?v"
      by blast
  }
  {
    assume shaped: "dict_shaped (pre @ c # post)" and fresh: "tag c \<notin> fst ` set as"
    have ne: "pre @ c # post \<noteq> []" by simp
    let ?d = "if as \<noteq> [] then dict_update (XmlDictConfig ?p) (dict_items as) else XmlDictConfig ?p"
    have "child_value ?p = PDict ?d"
      using shaped ne by (simp add: Let_def del: XmlDictConfig.simps)
    moreover have "map_of ?d (tag c) = Some ?v"
    proof (cases "as = []")
      case True
      with raw show ?thesis by (simp del: XmlDictConfig.simps)
    next
      case False
      with fresh raw show ?thesis
        by (simp add: dict_update_other dict_items_keys del: XmlDictConfig.simps)
    qed
    ultimately show "\<exists>d. child_value ?p = PDict d \<and> map_of d (tag c) = Some ?v"
      by blast
  }
qed

text \<open>
  Witness for C8: at the root padded text and blank text are kept and the empty element
  gives None; the same under a nested parent with an attribute of another name.
\<close>

theorem leaf_text_verbatim_witness:
  "parse_xml leaf_fromstring ''<root><a> 1 </a><b>  </b><c/></root>''
     = Inr (PDict [(''a'', PStr '' 1 ''), (''b'', PStr ''  ''), (''c'', PNone)])
   \<and> (\<exists>d. parse_xml leaf_fromstring ''<root><a> 1 </a><b>  </b><c/></root>'' = Inr (PDict d)
          \<and> map_of d ''b'' = Some (PStr ''  ''))
   \<and> (\<exists>d. child_value (Element ''p'' [(''k'', ''v'')] None
              [Element ''a'' [] (Some '' 1 '') [], Element ''c'' [] None []]) = PDict d
          \<and> map_of d ''a'' = Some (PStr '' 1 ''))"
proof -
  have p: "leaf_fromstring ''<root><a> 1 </a><b>  </b><c/></root>'' =
      Inr (Element ''root'' [] None
          ([Element ''a'' [] (Some '' 1 '') []] @ Element ''b'' [] (Some ''  '') [] #
           [Element ''c'' [] None []]))"
    by (simp add: leaf_fromstring_def)
  have e: "parse_xml leaf_fromstring ''<root><a> 1 </a><b>  </b><c/></root>''
     = Inr (PDict [(''a'', PStr '' 1 ''), (''b'', PStr ''  ''), (''c'', PNone)])"
    by (simp add: parse_xml_def leaf_fromstring_def)
  from leaf_text_verbatim [where c = "Element ''b'' [] (Some ''  '') []"
      and post = "[Element ''c'' [] None []]" and pre = "[Element ''a'' [] (Some '' 1 '') []]"
      and t = "''root''" and as = "[]" and tx = None and parse = leaf_fromstring
      and s = "''<root><a> 1 </a><b>  </b><c/></root>''", THEN conjunct1, rule_format, OF _ _ _ p]
  have r: "\<exists>d. parse_xml leaf_fromstring ''<root><a> 1 </a><b>  </b><c/></root>'' = Inr (PDict d)
          \<and> map_of d ''b'' = Some (PStr ''  '')" by simp
  from leaf_text_verbatim [where c = "Element ''a'' [] (Some '' 1 '') []"
      and post = "[Element ''c'' [] None []]" and pre = "[]"
      and t = "''p''" and as = "[(''k'', ''v'')]" and tx = None, THEN conjunct2, rule_format]
  have n: "\<exists>d. child_value (Element ''p'' [(''k'', ''v'')] None
              [Element ''a'' [] (Some '' 1 '') [], Element ''c'' [] None []]) = PDict d
          \<and> map_of d ''a'' = Some (PStr '' 1 '')"
    by (simp del: child_value.simps)
  from e r n show ?thesis by (intro conjI)
qed

text \<open>
  Claim C10. An element with attributes and no children is normalised to the mapping of
  its attributes alone, whatever its text: as a child of a mapping, as the element
  handed to the normaliser, as an item of a list, and so under its tag in the parent's
  mapping.
\<close>

theorem attributes_discard_text:
  assumes "as \<noteq> []" and "distinct (map fst as)"
  shows "child_value (Element t as tx []) = PDict (map (\<lambda>(k, v). (k, PStr v)) as)
     \<and> XmlDictConfig (Element t as tx []) = map (\<lambda>(k, v). (k, PStr v)) as
     \<and> XmlListConfig_loop [Element t as tx []] = [PDict (map (\<lambda>(k, v). (k, PStr v)) as)]
     \<and> (t \<notin> tag ` set post \<longrightarrow>
          map_of (XmlDictConfig (Element t' as' tx' (pre @ Element t as tx [] # post))) t
            = Some (PDict (map (\<lambda>(k, v). (k, PStr v)) as)))"
proof -
  let ?d = "map (\<lambda>(k, v). (k, PStr v)) as"
  have items: "dict_items as = ?d"
    by (rule dict_items_distinct [OF assms(2)])
  have keys: "map fst ?d = map fst as"
    by (induction as) auto
  have "distinct (map fst ([] @ ?d))"
    using assms(2) by (simp only: keys append_Nil)
  from dict_update_distinct [OF this] have upd: "dict_update [] ?d = ?d" by simp
  have cv: "child_value (Element t as tx []) = PDict ?d"
    using assms(1) by (simp add: items)
  have root: "XmlDictConfig (Element t as tx []) = ?d"
    using assms(1) by (simp add: items upd)
  have lst: "XmlListConfig_loop [Element t as tx []] = [PDict ?d]"
    using assms(1) by (simp add: items upd)
  have par: "t \<notin> tag ` set post \<longrightarrow>
          map_of (XmlDictConfig (Element t' as' tx' (pre @ Element t as tx [] # post))) t = Some (PDict ?d)"
  proof
    assume "t \<notin> tag ` set post"
    then have "tag (Element t as tx []) \<notin> tag ` set post" by simp
    from dict_last_wins [OF this, of t' as' tx' pre] show
      "map_of (XmlDictConfig (Element t' as' tx' (pre @ Element t as tx [] # post))) t = Some (PDict ?d)"
      by (simp only: cv element.sel)
  qed
  from cv root lst par show ?thesis by blast
qed

text \<open>Witness for C10: \<^verbatim>\<open><Platform instrument_model="MiSeq">ILLUMINA</Platform>\<close>.\<close>

theorem attributes_discard_text_witness:
  "child_value (Element ''Platform'' [(''instrument_model'', ''MiSeq'')] (Some ''ILLUMINA'') [])
     = PDict [(''instrument_model'', PStr ''MiSeq'')]
   \<and> map_of (XmlDictConfig (Element ''Summary'' [] None
        [Element ''Title'' [] (Some ''T'') [],
         Element ''Platform'' [(''instrument_model'', ''MiSeq'')] (Some ''ILLUMINA'') []])) ''Platform''
     = Some (PDict [(''instrument_model'', PStr ''MiSeq'')])"
  using attributes_discard_text [where as = "[(''instrument_model'', ''MiSeq'')]"
      and t = "''Platform''" and tx = "Some ''ILLUMINA''" and post = "[]" and t' = "''Summary''"
      and as' = "[]" and tx' = None and pre = "[Element ''Title'' [] (Some ''T'') []]"]
  by simp

section \<open>The pipeline: requests\<close>

lemma requests_of_append: "requests_of (xs @ ys) = requests_of xs @ requests_of ys"
  by (induction xs rule: requests_of.induct) simp_all

lemma requests_of_Print: "requests_of (map Print ls) = []"
  by (induction ls) simp_all

lemma printed_append: "printed (xs @ ys) = printed xs @ printed ys"
  by (induction xs rule: printed.induct) simp_all

lemma printed_Print: "printed (map Print ls) = ls"
  by (induction ls) simp_all

lemma fetch_page_requests:
  "requests_of (trace (fst (fetch_page w tok r st))) =
     requests_of (trace st) @
       (if truthy tok then [(esummary_url, biosample_query_params tok r)] else [])"
  by (simp add: fetch_page_def Let_def requests_of_append split: option.splits)

lemma fetch_page_experiments: "experiments (fst (fetch_page w tok r st)) = experiments st"
  by (simp add: fetch_page_def Let_def split: option.splits)

lemma page_step_trace:
  "\<exists>ls. trace (fst (page_step w tok r st)) = trace (fst (fetch_page w tok r st)) @ ls
        \<and> requests_of ls = []"
proof (cases "fetch_page w tok r st")
  case (Pair st1 out)
  show ?thesis
  proof (cases out)
    case (Some o1)
    with Pair show ?thesis by (simp add: page_step_def)
  next
    case None
    show ?thesis
    proof (cases "getpath (biosample_data st1) [''result'', ''uids'']")
      case (Inl err)
      with Pair None show ?thesis by (cases err) (simp_all add: page_step_def)
    next
      case (Inr uids)
      show ?thesis
      proof (cases "sbind (py_iter uids) (\<lambda>us. process_uids w (biosample_data st1) us (experiments st1))")
        case (Inl err)
        with Pair None Inr show ?thesis by (simp add: page_step_def)
      next
        case (Inr exps)
        with Pair None \<open>getpath (biosample_data st1) [''result'', ''uids''] = Inr uids\<close>
        show ?thesis
          by (simp add: page_step_def Let_def requests_of_Print split: prod.splits)
      qed
    qed
  qed
qed

lemma page_step_requests:
  "requests_of (trace (fst (page_step w tok r st))) =
     requests_of (trace st) @
       (if truthy tok then [(esummary_url, biosample_query_params tok r)] else [])"
proof -
  from page_step_trace [of w tok r st] obtain ls where
    "trace (fst (page_step w tok r st)) = trace (fst (fetch_page w tok r st)) @ ls"
    and "requests_of ls = []" by blast
  then show ?thesis by (simp add: requests_of_append fetch_page_requests)
qed

lemma fetch_page_not_Returned: "snd (fetch_page w tok r st) \<noteq> Some Returned"
  by (simp add: fetch_page_def Let_def split: option.splits)

lemma page_step_not_Returned: "snd (page_step w tok r st) \<noteq> Some Returned"
proof (cases "fetch_page w tok r st")
  case (Pair st1 out)
  show ?thesis
  proof (cases out)
    case (Some o1)
    with Pair fetch_page_not_Returned [of w tok r st] show ?thesis by (simp add: page_step_def)
  next
    case None
    show ?thesis
    proof (cases "getpath (biosample_data st1) [''result'', ''uids'']")
      case (Inl err)
      with Pair None show ?thesis by (cases err) (simp_all add: page_step_def)
    next
      case (Inr uids)
      with Pair None show ?thesis
        by (auto simp: page_step_def Let_def split: prod.splits sum.splits)
    qed
  qed
qed


lemma main_loop_requests:
  "\<exists>k \<le> length rs.
     requests_of (trace (fst (main_loop w tok rs st))) =
       requests_of (trace st) @ (if truthy tok then map (\<lambda>r. (esummary_url, biosample_query_params tok r)) (take k rs) else [])
     \<and> (snd (main_loop w tok rs st) = Returned \<longrightarrow> k = length rs)"
proof (induction rs arbitrary: st)
  case Nil
  then show ?case by simp
next
  case (Cons r rs)
  obtain st1 out where ps: "page_step w tok r st = (st1, out)" by (cases "page_step w tok r st")
  have req1: "requests_of (trace st1) = requests_of (trace st) @
       (if truthy tok then [(esummary_url, biosample_query_params tok r)] else [])"
    using page_step_requests [of w tok r st] ps by simp
  show ?case
  proof (cases out)
    case (Some o1)
    have "requests_of (trace (fst (main_loop w tok (r # rs) st))) =
       requests_of (trace st) @ (if truthy tok then map (\<lambda>r. (esummary_url, biosample_query_params tok r)) (take 1 (r # rs)) else [])"
      using ps Some req1 by simp
    moreover have "snd (main_loop w tok (r # rs) st) \<noteq> Returned"
      using ps Some page_step_not_Returned [of w tok r st] by auto
    moreover have "(1::nat) \<le> length (r # rs)" by simp
    ultimately show ?thesis by blast
  next
    case None
    from Cons.IH [of st1] obtain k where k: "k \<le> length rs"
      "requests_of (trace (fst (main_loop w tok rs st1))) =
         requests_of (trace st1) @ (if truthy tok then map (\<lambda>r. (esummary_url, biosample_query_params tok r)) (take k rs) else [])"
      "snd (main_loop w tok rs st1) = Returned \<longrightarrow> k = length rs" by blast
    have "Suc k \<le> length (r # rs)" using k(1) by simp
    moreover have "requests_of (trace (fst (main_loop w tok (r # rs) st))) =
       requests_of (trace st) @ (if truthy tok then map (\<lambda>r. (esummary_url, biosample_query_params tok r)) (take (Suc k) (r # rs)) else [])"
      using ps None k(2) req1 by simp
    moreover have "snd (main_loop w tok (r # rs) st) = Returned \<longrightarrow> Suc k = length (r # rs)"
      using ps None k(3) by simp
    ultimately show ?thesis by blast
  qed
qed

lemma py_range_500:
  "py_range start stop 500 =
     map (\<lambda>k. start + 500 * int k) [0..<nat ((stop - start + 499) div 500)]"
proof (induction start stop "500 :: int" rule: py_range.induct)
  case (1 start stop)
  show ?case
  proof (cases "start < stop")
    case False
    then have "(stop - start + 499) div 500 \<le> 0" by simp
    with False show ?thesis by (subst py_range.simps) simp
  next
    case True
    then have n: "nat ((stop - start + 499) div 500) = Suc (nat ((stop - (start + 500) + 499) div 500))"
      by simp
    have "py_range start stop 500 = start # py_range (start + 500) stop 500"
      using True by (subst py_range.simps) simp
    also have "py_range (start + 500) stop 500 =
        map (\<lambda>k. start + 500 + 500 * int k) [0..<nat ((stop - (start + 500) + 499) div 500)]"
      using "1" True by simp
    finally show ?thesis
      unfolding n by (simp add: upt_conv_Cons map_Suc_upt [symmetric] del: upt_Suc)
  qed
qed

lemma main_requests:
  assumes "search_webenv w a = Inr tok" and "max_samples a = PInt M"
  shows "\<exists>k \<le> length (py_range 0 (M + 1) 500).
     requests_of (fst (main w a)) =
       (esearch_url, project_query_params a) #
          (if truthy tok
           then map (\<lambda>r. (esummary_url, biosample_query_params tok r))
                  (take k (py_range 0 (M + 1) 500))
           else [])
     \<and> (snd (main w a) = Returned \<longrightarrow> k = length (py_range 0 (M + 1) 500))"
proof -
  let ?st0 = "\<lparr>biosample_data = PNone, experiments = [],
       trace = [Request esearch_url (project_query_params a)] @ [Print (join_comma output_fields)]\<rparr>"
  let ?rs = "py_range 0 (M + 1) 500"
  from main_loop_requests [of ?rs w tok ?st0] obtain k where k: "k \<le> length ?rs"
    "requests_of (trace (fst (main_loop w tok ?rs ?st0))) =
       requests_of (trace ?st0) @
         (if truthy tok then map (\<lambda>r. (esummary_url, biosample_query_params tok r)) (take k ?rs) else [])"
    "snd (main_loop w tok ?rs ?st0) = Returned \<longrightarrow> k = length ?rs" by blast
  have m: "main w a = (trace (fst (main_loop w tok ?rs ?st0)), snd (main_loop w tok ?rs ?st0))"
    using assms by (simp add: main_def Let_def split: prod.splits)
  have f: "fst (main w a) = trace (fst (main_loop w tok ?rs ?st0))"
    by (simp only: m fst_conv)
  have s: "snd (main w a) = snd (main_loop w tok ?rs ?st0)"
    by (simp only: m snd_conv)
  have t0: "requests_of (trace ?st0) = [(esearch_url, project_query_params a)]"
    by simp
  have "requests_of (fst (main w a)) =
       (esearch_url, project_query_params a) #
          (if truthy tok
           then map (\<lambda>r. (esummary_url, biosample_query_params tok r)) (take k ?rs)
           else [])"
    unfolding f k(2) t0 by simp
  moreover have "snd (main w a) = Returned \<longrightarrow> k = length ?rs"
    unfolding s by (rule k(3))
  ultimately show ?thesis using k(1) by blast
qed

lemma no_token_raises:
  assumes "\<not> truthy tok" and "biosample_data st = PNone"
  shows "page_step w tok r st = (st, Some (Raised TypeError))"
  using assms by (simp add: page_step_def fetch_page_def sbind_def)

text \<open>
  Claim C5. For an integer \<open>max_samples\<close> \<open>M\<close> and a search call that does not raise, the
  summary requests of a run are a prefix of the requests at \<open>retstart\<close> 0, 500, 1000, ...
  up to \<open>M\<close> inclusive, each with \<open>retmax\<close> 500; a run that returns has issued exactly
  these, in this order. The list depends on \<open>M\<close> alone, never on what the server reports.
\<close>

theorem pagination_bound:
  assumes "search_webenv w a = Inr tok" and "max_samples a = PInt M"
  shows "prefix (requests_of (fst (main w a)))
           ((esearch_url, project_query_params a) #
             map (\<lambda>r. (esummary_url, biosample_query_params tok r))
               (py_range 0 (M + 1) 500))
     \<and> (snd (main w a) = Returned \<longrightarrow>
          requests_of (fst (main w a)) =
            (esearch_url, project_query_params a) #
              map (\<lambda>r. (esummary_url, biosample_query_params tok r))
                (py_range 0 (M + 1) 500))
     \<and> py_range 0 (M + 1) 500 =
          map (\<lambda>k. 500 * int k) [0..<nat ((M + 500) div 500)]"
proof -
  let ?rs = "py_range 0 (M + 1) 500"
  let ?f = "\<lambda>r. (esummary_url, biosample_query_params tok r)"
  from main_requests [OF assms] obtain k where k: "k \<le> length ?rs"
    "requests_of (fst (main w a)) =
       (esearch_url, project_query_params a) # (if truthy tok then map ?f (take k ?rs) else [])"
    "snd (main w a) = Returned \<longrightarrow> k = length ?rs" by blast
  have "prefix (if truthy tok then map ?f (take k ?rs) else []) (map ?f ?rs)"
    by (simp add: take_is_prefix map_mono_prefix)
  with k(2) have p: "prefix (requests_of (fst (main w a)))
      ((esearch_url, project_query_params a) # map ?f ?rs)" by simp
  have e: "snd (main w a) = Returned \<longrightarrow>
      requests_of (fst (main w a)) = (esearch_url, project_query_params a) # map ?f ?rs"
  proof
    assume ret: "snd (main w a) = Returned"
    with k(3) have kl: "k = length ?rs" by simp
    show "requests_of (fst (main w a)) = (esearch_url, project_query_params a) # map ?f ?rs"
    proof (cases "truthy tok")
      case True
      with k(2) kl show ?thesis by simp
    next
      case False
      have "?rs = []"
      proof (rule ccontr)
        assume "?rs \<noteq> []"
        then obtain r rs where rs: "?rs = r # rs" by (cases ?rs) auto
        have "snd (main w a) = Raised TypeError"
          using assms rs no_token_raises [OF False, of _ w r]
          by (simp add: main_def Let_def split: prod.splits)
        with ret show False by simp
      qed
      with k(2) False show ?thesis by simp
    qed
  qed
  have r: "?rs = map (\<lambda>k. 500 * int k) [0..<nat ((M + 500) div 500)]"
    by (simp add: py_range_500 add.commute)
  from p e r show ?thesis by blast
qed

section \<open>The concrete inputs, evaluated\<close>

lemma scn_parse_exp:
  "parse_xml scn_fromstring (wrap_root (scn_expxml ''1'' ''ILLUMINA'')) = Inr (PDict (XmlDictConfig (scn_exp_root ''1'' ''ILLUMINA'')))"
  "parse_xml scn_fromstring (wrap_root (scn_expxml ''2'' ''ILLUMINA'')) = Inr (PDict (XmlDictConfig (scn_exp_root ''2'' ''ILLUMINA'')))"
  "parse_xml scn_fromstring (wrap_root (scn_expxml ''3'' ''PACBIO_SMRT'')) = Inr (PDict (XmlDictConfig (scn_exp_root ''3'' ''PACBIO_SMRT'')))"
  by (simp_all add: parse_xml_def scn_fromstring_def wrap_root_def scn_expxml_def scn_runs_def)

lemma scn_parse_runs:
  "parse_xml scn_fromstring (wrap_root (scn_runs ''1'')) = Inr (PDict (XmlDictConfig (scn_runs_root ''1'')))"
  "parse_xml scn_fromstring (wrap_root (scn_runs ''2'')) = Inr (PDict (XmlDictConfig (scn_runs_root ''2'')))"
  "parse_xml scn_fromstring (wrap_root (scn_runs ''3'')) = Inr (PDict (XmlDictConfig (scn_runs_root ''3'')))"
  by (simp_all add: parse_xml_def scn_fromstring_def wrap_root_def scn_expxml_def scn_runs_def)

lemma str_strip_id:
  assumes "s \<noteq> []" and "\<not> is_space (hd s)" and "\<not> is_space (last s)"
  shows "str_strip s = s"
proof -
  from assms(1,2) have a: "dropWhile is_space s = s" by (cases s) simp_all
  from assms(1,3) have "dropWhile is_space (rev s) = rev s"
    by (cases "rev s") (simp_all add: last_rev [symmetric] hd_rev)
  with a show ?thesis by (simp add: str_strip_def)
qed

lemma scn_strip_exp: "str_strip (scn_expxml n p) = scn_expxml n p"
  by (simp add: scn_expxml_def str_strip_id is_space_def)

lemma scn_strip_runs: "str_strip (scn_runs n) = scn_runs n"
  by (simp add: scn_runs_def str_strip_id is_space_def)

lemma scn_normalise_exp:
  "XmlDictConfig (scn_exp_root n p) =
     (case scn_record n p of PDict d \<Rightarrow> butlast d | _ \<Rightarrow> [])"
  by (simp add: scn_exp_root_def scn_record_def dict_items_def dict_update_def)

lemma scn_normalise_runs:
  "XmlDictConfig (scn_runs_root n) =
     [(''Run'', PDict [(''acc'', PStr (''SRR'' @ n)), (''total_spots'', PStr ''10'')])]"
  by (simp add: scn_runs_root_def dict_items_def dict_update_def)

lemma scn_assemble:
  assumes "parse_xml (fromstring w) (wrap_root (scn_expxml n p)) =
             Inr (PDict (XmlDictConfig (scn_exp_root n p)))"
      and "parse_xml (fromstring w) (wrap_root (scn_runs n)) =
             Inr (PDict (XmlDictConfig (scn_runs_root n)))"
      and "sbind (getitem data (PStr ''result'')) (\<lambda>result. getitem result uid) =
             Inr (PDict [(''expxml'', PStr (scn_expxml n p)), (''runs'', PStr (scn_runs n))])"
  shows "assemble_record w data uid = Inr (scn_record n p)"
proof -
  from assms(3) obtain result where r: "getitem data (PStr ''result'') = Inr result"
    "getitem result uid =
       Inr (PDict [(''expxml'', PStr (scn_expxml n p)), (''runs'', PStr (scn_runs n))])"
    by (auto simp: sbind_def split: sum.splits)
  with assms(1,2) show ?thesis
    by (simp add: assemble_record_def sbind_def scn_strip_exp scn_strip_runs scn_normalise_exp
          scn_normalise_runs scn_record_def)
qed

lemma scn_filter:
  "platform_filter (scn_record n ''ILLUMINA'') = Inr True"
  "platform_filter (scn_record n ''PACBIO_SMRT'') = Inr False"
  by (simp_all add: platform_filter_def scn_record_def sbind_def)

lemma scn_print: "print_experiment_csv (scn_record n ''ILLUMINA'') = ([scn_row n], None)"
  by (simp add: print_experiment_csv_def scn_record_def sbind_def row_line_def row_values_def
        experiment_values_def experiment_paths_def py_join_comma_def scn_row_def)

lemma scn_search_webenv: "search_webenv (scn_world pages) a = Inr (PStr ''MCID_1'')"
  by (simp add: search_webenv_def scn_world_def scn_get_def scn_search_def sbind_def)

lemma scn_get_page:
  "requests_get (scn_world pages) esummary_url (biosample_query_params tok r) =
     (case map_of pages r of
        Some p \<Rightarrow> p
      | None \<Rightarrow> \<lparr>status_code = 404, resp_text = [], resp_json = None\<rparr>)"
  by (simp add: scn_world_def scn_get_def biosample_query_params_def esummary_url_def
        esearch_url_def base_url_def)

lemma scn_world_fromstring: "fromstring (scn_world pages) = scn_fromstring"
  by (simp add: scn_world_def)

lemma scn_page_sel:
  "status_code (scn_page nps) = 200"
  "resp_text (scn_page nps) = scn_page_text nps"
  "resp_json (scn_page nps) = Some (scn_page_json nps)"
  by (simp_all add: scn_page_def)

lemma scn_page_no_marker:
  "\<not> re_search error_marker (scn_page_text [(''1'', ''ILLUMINA'')])"
  "\<not> re_search error_marker (scn_page_text [(''2'', ''ILLUMINA'')])"
  "\<not> re_search error_marker (scn_page_text [(''1'', ''ILLUMINA''), (''3'', ''PACBIO_SMRT'')])"
  by (simp_all add: error_marker_def scn_page_text_def scn_entry_text_def scn_expxml_def scn_runs_def)

lemma scn_api_error_marker: "re_search error_marker (resp_text scn_api_error)"
  by (simp add: error_marker_def scn_api_error_def)

lemma scn_api_error_status: "status_code scn_api_error = 200"
  by (simp add: scn_api_error_def)

lemma scn_page_uids:
  "getpath (scn_page_json nps) [''result'', ''uids''] = Inr (PList (map (\<lambda>np. PStr (''10'' @ fst np)) nps))"
  by (simp add: scn_page_json_def sbind_def)

lemma scn_page_assemble_1:
  "assemble_record (scn_world pages) (scn_page_json [(''1'', ''ILLUMINA'')]) (PStr ''101'') =
     Inr (scn_record ''1'' ''ILLUMINA'')"
  using scn_assemble [where w = "scn_world pages" and n = "''1''" and p = "''ILLUMINA''"
      and data = "scn_page_json [(''1'', ''ILLUMINA'')]" and uid = "PStr ''101''"]
  by (simp add: scn_world_fromstring scn_parse_exp scn_parse_runs scn_page_json_def sbind_def)

lemma scn_page_assemble_2:
  "assemble_record (scn_world pages) (scn_page_json [(''2'', ''ILLUMINA'')]) (PStr ''102'') =
     Inr (scn_record ''2'' ''ILLUMINA'')"
  using scn_assemble [where w = "scn_world pages" and n = "''2''" and p = "''ILLUMINA''"
      and data = "scn_page_json [(''2'', ''ILLUMINA'')]" and uid = "PStr ''102''"]
  by (simp add: scn_world_fromstring scn_parse_exp scn_parse_runs scn_page_json_def sbind_def)

lemma scn_page_assemble_mixed_1:
  "assemble_record (scn_world pages) (scn_page_json [(''1'', ''ILLUMINA''), (''3'', ''PACBIO_SMRT'')])
     (PStr ''101'') = Inr (scn_record ''1'' ''ILLUMINA'')"
  using scn_assemble [where w = "scn_world pages" and n = "''1''" and p = "''ILLUMINA''"
      and data = "scn_page_json [(''1'', ''ILLUMINA''), (''3'', ''PACBIO_SMRT'')]"
      and uid = "PStr ''101''"]
  by (simp add: scn_world_fromstring scn_parse_exp scn_parse_runs scn_page_json_def sbind_def)

lemma scn_page_assemble_mixed_3:
  "assemble_record (scn_world pages) (scn_page_json [(''1'', ''ILLUMINA''), (''3'', ''PACBIO_SMRT'')])
     (PStr ''103'') = Inr (scn_record ''3'' ''PACBIO_SMRT'')"
  using scn_assemble [where w = "scn_world pages" and n = "''3''" and p = "''PACBIO_SMRT''"
      and data = "scn_page_json [(''1'', ''ILLUMINA''), (''3'', ''PACBIO_SMRT'')]"
      and uid = "PStr ''103''"]
  by (simp add: scn_world_fromstring scn_parse_exp scn_parse_runs scn_page_json_def sbind_def)

section \<open>Runs on the concrete inputs\<close>

lemma py_range_eval:
  "py_range 0 501 500 = [0, 500]"
  "py_range 0 1001 500 = [0, 500, 1000]"
  "py_range 0 1201 500 = [0, 500, 1000]"
  "py_range 0 1 500 = [0]"
  by (simp_all add: py_range.simps)

lemmas run_simps = main_def Let_def scn_search_webenv scn_args_def py_range_eval page_step_def
  fetch_page_def scn_get_page scn_page_sel scn_page_no_marker scn_api_error_marker
  scn_api_error_status scn_page_uids process_uid_def scn_page_assemble_1 scn_page_assemble_2
  scn_page_assemble_mixed_1 scn_page_assemble_mixed_3 scn_filter scn_print sbind_def

lemma two_pages_run:
  "main (scn_world two_pages) (scn_args 500) =
     ([Request esearch_url (project_query_params (scn_args 500)),
       Print (join_comma output_fields),
       Request esummary_url (biosample_query_params (PStr ''MCID_1'') 0),
       Print (scn_row ''1''),
       Request esummary_url (biosample_query_params (PStr ''MCID_1'') 500),
       Print (scn_row ''1''),
       Print (scn_row ''2'')],
      Returned)"
  by (simp add: run_simps two_pages_def del: getpath.simps)

lemma error_second_page_run:
  "main (scn_world error_second_page) (scn_args 1000) =
     ([Request esearch_url (project_query_params (scn_args 1000)),
       Print (join_comma output_fields),
       Request esummary_url (biosample_query_params (PStr ''MCID_1'') 0),
       Print (scn_row ''1''),
       Request esummary_url (biosample_query_params (PStr ''MCID_1'') 500),
       Print (scn_row ''1''),
       Print (scn_row ''1''),
       Request esummary_url (biosample_query_params (PStr ''MCID_1'') 1000),
       Print (scn_row ''1''),
       Print (scn_row ''1''),
       Print (scn_row ''2'')],
      Returned)"
  by (simp add: run_simps error_second_page_def del: getpath.simps)

lemma empty_pages_run:
  "main (scn_world empty_pages) (scn_args 1200) =
     ([Request esearch_url (project_query_params (scn_args 1200)),
       Print (join_comma output_fields),
       Request esummary_url (biosample_query_params (PStr ''MCID_1'') 0),
       Request esummary_url (biosample_query_params (PStr ''MCID_1'') 500),
       Request esummary_url (biosample_query_params (PStr ''MCID_1'') 1000)],
      Returned)"
  by (simp add: run_simps empty_pages_def scn_empty_page_def error_marker_def)

text \<open>
  Witness for C5: with \<open>max_samples\<close> 1200 and three pages that list nothing, the run
  returns after exactly three summary requests, at \<open>retstart\<close> 0, 500 and 1000.
\<close>

theorem pagination_bound_witness:
  "requests_of (fst (main (scn_world empty_pages) (scn_args 1200))) =
     [(esearch_url, project_query_params (scn_args 1200)),
      (esummary_url, biosample_query_params (PStr ''MCID_1'') 0),
      (esummary_url, biosample_query_params (PStr ''MCID_1'') 500),
      (esummary_url, biosample_query_params (PStr ''MCID_1'') 1000)]
   \<and> py_range 0 (1200 + 1) 500 = [0, 500, 1000]"
proof -
  have run: "snd (main (scn_world empty_pages) (scn_args 1200)) = Returned"
    by (simp add: empty_pages_run)
  have m: "max_samples (scn_args 1200) = PInt 1200"
    by (simp add: scn_args_def)
  from pagination_bound [OF scn_search_webenv m, of empty_pages] run
  show ?thesis by (simp add: py_range_eval)
qed

text \<open>
  Claim C2 fails on the code. With \<open>max_samples\<close> 500 and two pages of one kept
  experiment each, the run prints the row of the first page's experiment twice: the
  printing loop stands inside the page loop and the list \<open>experiments\<close> is never emptied,
  so every page prints again what the earlier pages kept.
\<close>

theorem earlier_pages_printed_again:
  "printed (fst (main (scn_world two_pages) (scn_args 500))) =
     [join_comma output_fields, scn_row ''1'', scn_row ''1'', scn_row ''2'']
   \<and> snd (main (scn_world two_pages) (scn_args 500)) = Returned
   \<and> scn_row ''1'' = ''SRR1,PRJ1,SRX1,E1,Ecoli,M1,C1,SRP1,S1,SRS1,N1,30,1,10,20,L1,WGS,GENOMIC,RANDOM''
   \<and> scn_row ''2'' = ''SRR2,PRJ1,SRX2,E2,Ecoli,M2,C2,SRP2,S2,SRS2,N2,30,1,10,20,L2,WGS,GENOMIC,RANDOM''"
  by (simp add: two_pages_run scn_row_def)

text \<open>
  Claim C4 fails on the code. The second of three pages is an error answer of the API
  and holds the error marker. The run does not stop there: the payload of the first page
  is processed a second time, its rows are printed again, the third page is requested,
  and \<open>main\<close> returns.
\<close>

theorem error_marker_does_not_abort:
  "re_search error_marker (resp_text scn_api_error)
   \<and> map_of error_second_page 500 = Some scn_api_error
   \<and> main (scn_world error_second_page) (scn_args 1000) =
     ([Request esearch_url (project_query_params (scn_args 1000)),
       Print (join_comma output_fields),
       Request esummary_url (biosample_query_params (PStr ''MCID_1'') 0),
       Print (scn_row ''1''),
       Request esummary_url (biosample_query_params (PStr ''MCID_1'') 500),
       Print (scn_row ''1''),
       Print (scn_row ''1''),
       Request esummary_url (biosample_query_params (PStr ''MCID_1'') 1000),
       Print (scn_row ''1''),
       Print (scn_row ''1''),
       Print (scn_row ''2'')],
      Returned)"
  by (simp add: error_second_page_run scn_api_error_marker) (simp add: error_second_page_def)

section \<open>The error marker\<close>

lemma re_search_iff: "re_search pat s \<longleftrightarrow> (\<exists>pre post. s = pre @ pat @ post)"
proof (induction s)
  case Nil
  then show ?case by auto
next
  case (Cons c cs)
  have "(\<exists>pre post. c # cs = pre @ pat @ post) \<longleftrightarrow>
        (\<exists>post. c # cs = pat @ post) \<or> (\<exists>pre post. cs = pre @ pat @ post)"
  proof
    assume "\<exists>pre post. c # cs = pre @ pat @ post"
    then obtain pre post where e: "c # cs = pre @ pat @ post" by blast
    show "(\<exists>post. c # cs = pat @ post) \<or> (\<exists>pre post. cs = pre @ pat @ post)"
    proof (cases pre)
      case Nil
      with e show ?thesis by auto
    next
      case (Cons p ps)
      with e have "cs = ps @ pat @ post" by simp
      then show ?thesis by blast
    qed
  next
    assume "(\<exists>post. c # cs = pat @ post) \<or> (\<exists>pre post. cs = pre @ pat @ post)"
    then show "\<exists>pre post. c # cs = pre @ pat @ post"
    proof
      assume "\<exists>post. c # cs = pat @ post"
      then obtain post where "c # cs = [] @ pat @ post" by auto
      then show ?thesis by blast
    next
      assume "\<exists>pre post. cs = pre @ pat @ post"
      then obtain pre post where "c # cs = (c # pre) @ pat @ post" by auto
      then show ?thesis by blast
    qed
  qed
  with Cons show ?case by (simp add: prefix_def)
qed

text \<open>
  Claim C9. Whenever the body of a page response holds the characters \<^verbatim>\<open>"error":\<close>
  anywhere, whatever the status and whatever the body otherwise is, the fetch leaves
  \<open>biosample_data\<close> as it was and does not end the run.
\<close>

theorem error_marker_skips_refresh:
  assumes "resp_text (requests_get w esummary_url (biosample_query_params tok r)) =
             pre @ ''\"error\":'' @ post"
  shows "biosample_data (fst (fetch_page w tok r st)) = biosample_data st
     \<and> snd (fetch_page w tok r st) = None"
proof -
  from assms have "re_search error_marker
      (resp_text (requests_get w esummary_url (biosample_query_params tok r)))"
    unfolding re_search_iff error_marker_def by blast
  then show ?thesis by (simp add: fetch_page_def Let_def)
qed

text \<open>
  Witness for C9: a page of status 200 that parses as JSON and is no API error, with a
  key named \<open>error\<close> inside the entry of one identifier.
\<close>

theorem error_marker_skips_refresh_witness:
  "resp_json scn_uid_note \<noteq> None \<and> status_code scn_uid_note = 200
   \<and> biosample_data (fst (fetch_page (scn_world [(0, scn_uid_note)]) (PStr ''MCID_1'') 0
        \<lparr>biosample_data = PNone, experiments = [], trace = []\<rparr>)) = PNone
   \<and> snd (fetch_page (scn_world [(0, scn_uid_note)]) (PStr ''MCID_1'') 0
        \<lparr>biosample_data = PNone, experiments = [], trace = []\<rparr>) = None"
  using error_marker_skips_refresh [where w = "scn_world [(0, scn_uid_note)]"
      and tok = "PStr ''MCID_1''" and r = 0
      and pre = "''{\"result\":{\"uids\":[\"7\"],\"7\":{\"uid\":\"7\",''"
      and post = "''\"cannot get document summary\"}}}''"
      and st = "\<lparr>biosample_data = PNone, experiments = [], trace = []\<rparr>"]
  by (simp add: scn_get_page scn_uid_note_def)

section \<open>The flattener: one line per run\<close>

lemma sum_map_length: "sum_map f xs = Inr ys \<Longrightarrow> length ys = length xs"
  by (induction xs arbitrary: ys) (auto split: sum.splits)

lemma sum_map_as_str: "sum_map as_str vs = Inr ss \<Longrightarrow> vs = map PStr ss"
proof (induction vs arbitrary: ss)
  case Nil
  then show ?case by simp
next
  case (Cons v vs)
  then show ?case by (cases v) (auto split: sum.splits)
qed

lemma row_line_fields:
  assumes "row_line e run = Inr line"
  shows "\<exists>a common. getitem run (PStr ''acc'') = Inr (PStr a)
           \<and> experiment_values e = Inr (map PStr common)
           \<and> length common = 18 \<and> line = join_comma (a # common)"
proof -
  from assms obtain acc vs where a: "getitem run (PStr ''acc'') = Inr acc"
    and v: "experiment_values e = Inr vs" and j: "py_join_comma (acc # vs) = Inr line"
    by (auto simp: row_line_def row_values_def sbind_def split: sum.splits)
  from j obtain ss where s: "sum_map as_str (acc # vs) = Inr ss" and l: "line = join_comma ss"
    by (auto simp: py_join_comma_def sbind_def split: sum.splits)
  from sum_map_as_str [OF s] obtain a common where ss: "ss = a # common"
    and acc: "acc = PStr a" and vs: "vs = map PStr common"
    by (cases ss) auto
  from v have "length vs = length experiment_paths"
    unfolding experiment_values_def by (rule sum_map_length)
  then have "length common = 18" by (simp add: vs experiment_paths_def)
  with a v l ss acc vs show ?thesis by blast
qed

lemma print_runs_fields:
  assumes "print_runs e runs = (lines, None)"
  shows "\<exists>accs common. length common = 18 \<and>
          (runs \<noteq> [] \<longrightarrow> experiment_values e = Inr (map PStr common)) \<and>
          map (\<lambda>run. getitem run (PStr ''acc'')) runs = map (\<lambda>a. Inr (PStr a)) accs \<and>
          lines = map (\<lambda>a. join_comma (a # common)) accs"
  using assms
proof (induction runs arbitrary: lines)
  case Nil
  then have "lines = []" by simp
  then have "length (replicate 18 ([]::string)) = 18 \<and>
          (([]::pyval list) \<noteq> [] \<longrightarrow> experiment_values e = Inr (map PStr (replicate 18 []))) \<and>
          map (\<lambda>run. getitem run (PStr ''acc'')) [] = map (\<lambda>a. Inr (PStr a)) [] \<and>
          lines = map (\<lambda>a. join_comma (a # replicate 18 [])) []" by simp
  then show ?case by blast
next
  case (Cons run runs)
  from Cons.prems obtain line ls where rl: "row_line e run = Inr line"
    and rest: "print_runs e runs = (ls, None)" and lines: "lines = line # ls"
    by (auto split: sum.splits prod.splits)
  from row_line_fields [OF rl] obtain a common where a: "getitem run (PStr ''acc'') = Inr (PStr a)"
    and ev: "experiment_values e = Inr (map PStr common)" and len: "length common = 18"
    and line: "line = join_comma (a # common)" by blast
  from Cons.IH [OF rest] obtain accs common' where len': "length common' = 18"
    and ev': "runs \<noteq> [] \<longrightarrow> experiment_values e = Inr (map PStr common')"
    and accs: "map (\<lambda>run. getitem run (PStr ''acc'')) runs = map (\<lambda>a. Inr (PStr a)) accs"
    and ls: "ls = map (\<lambda>a. join_comma (a # common')) accs" by blast
  have ls2: "ls = map (\<lambda>a. join_comma (a # common)) accs"
  proof (cases runs)
    case Nil
    with accs have "accs = []" by simp
    with ls show ?thesis by simp
  next
    case (Cons r rs)
    with ev' ev have "map PStr common' = map PStr common" by simp
    then have "common' = common" by (simp add: inj_on_def)
    with ls show ?thesis by simp
  qed
  have "map (\<lambda>run. getitem run (PStr ''acc'')) (run # runs) = map (\<lambda>a. Inr (PStr a)) (a # accs)"
    using a accs by simp
  moreover have "lines = map (\<lambda>a. join_comma (a # common)) (a # accs)"
    using lines line ls2 by simp
  ultimately show ?case using len ev by blast
qed

text \<open>
  Claim C3. When \<open>print_experiment_csv\<close> runs to its end on a record, it has printed exactly
  one line per element of the record's \<open>runs\<close>, in their order: the line of a run is the
  run's \<open>acc\<close> followed by the same eighteen experiment-level fields, which are the
  values \<open>experiment_values\<close> reads from the record.
\<close>

theorem flatten_fan_out:
  assumes "sbind (getitem e (PStr ''runs'')) py_iter = Inr runs"
      and "print_experiment_csv e = (lines, None)"
  shows "\<exists>accs common. length common = 18 \<and>
          (runs \<noteq> [] \<longrightarrow> experiment_values e = Inr (map PStr common)) \<and>
          map (\<lambda>run. getitem run (PStr ''acc'')) runs = map (\<lambda>a. Inr (PStr a)) accs \<and>
          lines = map (\<lambda>a. join_comma (a # common)) accs"
proof -
  from assms have "print_runs e runs = (lines, None)"
    by (simp add: print_experiment_csv_def)
  then show ?thesis by (rule print_runs_fields)
qed

lemma two_run_record_runs:
  "sbind (getitem two_run_record (PStr ''runs'')) py_iter =
     Inr [PDict [(''acc'', PStr ''SRR1'')], PDict [(''acc'', PStr ''SRR9'')]]"
  by (simp add: two_run_record_def scn_record_def sbind_def)

lemma two_run_record_print:
  "print_experiment_csv two_run_record =
     ([''SRR1,PRJ1,SRX1,E1,Ecoli,M1,C1,SRP1,S1,SRS1,N1,30,1,10,20,L1,WGS,GENOMIC,RANDOM'',
       ''SRR9,PRJ1,SRX1,E1,Ecoli,M1,C1,SRP1,S1,SRS1,N1,30,1,10,20,L1,WGS,GENOMIC,RANDOM''], None)"
  by (simp add: print_experiment_csv_def two_run_record_def scn_record_def sbind_def row_line_def
        row_values_def experiment_values_def experiment_paths_def py_join_comma_def)

text \<open>
  Witness for C3: a record with the runs SRR1 and SRR9 gives two lines that differ in the
  first field only.
\<close>

theorem flatten_fan_out_witness:
  "length (fst (print_experiment_csv two_run_record)) = 2 \<and>
   (\<exists>common. length common = 18 \<and>
      fst (print_experiment_csv two_run_record) =
        [join_comma (''SRR1'' # common), join_comma (''SRR9'' # common)])"
proof -
  from flatten_fan_out [OF two_run_record_runs two_run_record_print]
  obtain accs common where len: "length common = 18"
    and accs: "map (\<lambda>run. getitem run (PStr ''acc''))
                 [PDict [(''acc'', PStr ''SRR1'')], PDict [(''acc'', PStr ''SRR9'')]]
               = map (\<lambda>a. Inr (PStr a)) accs"
    and lines: "[''SRR1,PRJ1,SRX1,E1,Ecoli,M1,C1,SRP1,S1,SRS1,N1,30,1,10,20,L1,WGS,GENOMIC,RANDOM'',
       ''SRR9,PRJ1,SRX1,E1,Ecoli,M1,C1,SRP1,S1,SRS1,N1,30,1,10,20,L1,WGS,GENOMIC,RANDOM'']
        = map (\<lambda>a. join_comma (a # common)) accs"
    by (elim exE conjE) (rule that, assumption+)
  from accs have "accs = [''SRR1'', ''SRR9'']"
    by (cases accs; cases "tl accs"; cases "tl (tl accs)") auto
  with lines have "fst (print_experiment_csv two_run_record) =
        [join_comma (''SRR1'' # common), join_comma (''SRR9'' # common)]"
    by (simp only: two_run_record_print fst_conv list.map)
  with len show ?thesis by auto
qed

section \<open>The platform filter\<close>

lemma platform_filter_iff:
  assumes "platform_filter e = Inr keep"
  shows "keep = (case getitem e (PStr ''Instrument'') of
                   Inr (PDict d) \<Rightarrow> ''ILLUMINA'' \<in> fst ` set d
                 | _ \<Rightarrow> False)"
proof -
  from assms obtain i keys where i: "getitem e (PStr ''Instrument'') = Inr i"
    and k: "py_keys i = Inr keys" and keep: "keep = (''ILLUMINA'' \<in> set keys)"
    by (auto simp: platform_filter_def sbind_def split: sum.splits)
  from k obtain d where d: "i = PDict d" "keys = map fst d"
    by (cases i) auto
  with i keep show ?thesis by simp
qed

lemma process_uids_filter:
  assumes "process_uids w data uids exps = Inr exps'"
  shows "\<exists>es. sum_map (assemble_record w data) uids = Inr es \<and>
           exps' = exps @ filter (\<lambda>e. case getitem e (PStr ''Instrument'') of
                                        Inr (PDict d) \<Rightarrow> ''ILLUMINA'' \<in> fst ` set d
                                      | _ \<Rightarrow> False) es"
  using assms
proof (induction uids arbitrary: exps)
  case Nil
  then show ?case by simp
next
  case (Cons uid uids)
  let ?keep = "\<lambda>e. case getitem e (PStr ''Instrument'') of
                       Inr (PDict d) \<Rightarrow> ''ILLUMINA'' \<in> fst ` set d
                     | _ \<Rightarrow> False"
  from Cons.prems obtain exps1 where p1: "process_uid w data uid exps = Inr exps1"
    and rest: "process_uids w data uids exps1 = Inr exps'"
    by (auto simp: sbind_def split: sum.splits)
  from p1 obtain e keep where a: "assemble_record w data uid = Inr e"
    and f: "platform_filter e = Inr keep"
    and e1: "exps1 = (if keep then exps @ [e] else exps)"
    by (auto simp: process_uid_def sbind_def split: sum.splits)
  from platform_filter_iff [OF f] have keep: "keep = ?keep e" .
  from Cons.IH [OF rest] obtain es where es: "sum_map (assemble_record w data) uids = Inr es"
    and exps': "exps' = exps1 @ filter ?keep es" by blast
  have "sum_map (assemble_record w data) (uid # uids) = Inr (e # es)"
    using a es by simp
  moreover have "exps' = exps @ filter ?keep (e # es)"
    using exps' e1 keep by simp
  ultimately show ?case by blast
qed

lemma fetch_page_Exit: "snd (fetch_page w tok r st) = None \<or> snd (fetch_page w tok r st) = Some (Exit 1)"
  by (simp add: fetch_page_def Let_def split: option.splits)

text \<open>
  Claim C6. In a pass of the page loop that does not end the run, the records assembled
  for the page's identifiers are appended to \<open>experiments\<close> exactly when the value under
  \<open>Instrument\<close> is a mapping with the key \<open>ILLUMINA\<close>, in the page's order; after the
  fetch the pass prints the lines of the records in \<open>experiments\<close> and nothing else, so a
  record that fails the test leaves no trace.
\<close>

theorem platform_filter_keeps_illumina:
  assumes "page_step w tok r st = (st', None)"
  shows "\<exists>uids es ls.
           sbind (getpath (biosample_data st') [''result'', ''uids'']) py_iter = Inr uids
         \<and> sum_map (assemble_record w (biosample_data st')) uids = Inr es
         \<and> experiments st' = experiments st @
              filter (\<lambda>e. case getitem e (PStr ''Instrument'') of
                             Inr (PDict d) \<Rightarrow> ''ILLUMINA'' \<in> fst ` set d
                           | _ \<Rightarrow> False) es
         \<and> print_experiments (experiments st') = (ls, None)
         \<and> trace st' = trace (fst (fetch_page w tok r st)) @ map Print ls"
proof -
  obtain st1 out where fp: "fetch_page w tok r st = (st1, out)"
    by (cases "fetch_page w tok r st")
  have out: "out = None"
  proof (cases out)
    case (Some o1)
    with fp assms show ?thesis by (simp add: page_step_def)
  qed simp
  have ex1: "experiments st1 = experiments st"
    using fetch_page_experiments [of w tok r st] fp by simp
  obtain uids0 where g: "getpath (biosample_data st1) [''result'', ''uids''] = Inr uids0"
  proof (cases "getpath (biosample_data st1) [''result'', ''uids'']")
    case (Inl err)
    with fp out assms show ?thesis by (cases err) (simp_all add: page_step_def)
  next
    case (Inr u)
    then show ?thesis by (rule that)
  qed
  obtain exps where pu: "sbind (py_iter uids0)
      (\<lambda>us. process_uids w (biosample_data st1) us (experiments st1)) = Inr exps"
  proof (cases "sbind (py_iter uids0)
      (\<lambda>us. process_uids w (biosample_data st1) us (experiments st1))")
    case (Inl err)
    with fp out g assms show ?thesis by (simp add: page_step_def)
  next
    case (Inr x)
    then show ?thesis by (rule that)
  qed
  obtain ls r0 where pe: "print_experiments exps = (ls, r0)"
    by (cases "print_experiments exps")
  from fp out g pu pe assms have r0: "r0 = None"
    and st': "st' = st1\<lparr>experiments := exps, trace := trace st1 @ map Print ls\<rparr>"
    by (auto simp: page_step_def Let_def)
  from pu obtain uids where it: "py_iter uids0 = Inr uids"
    and pr: "process_uids w (biosample_data st1) uids (experiments st1) = Inr exps"
    by (auto simp: sbind_def split: sum.splits)
  from process_uids_filter [OF pr] obtain es where
    es: "sum_map (assemble_record w (biosample_data st1)) uids = Inr es"
    and exps: "exps = experiments st1 @
       filter (\<lambda>e. case getitem e (PStr ''Instrument'') of
                      Inr (PDict d) \<Rightarrow> ''ILLUMINA'' \<in> fst ` set d
                    | _ \<Rightarrow> False) es" by blast
  have "sbind (getpath (biosample_data st') [''result'', ''uids'']) py_iter = Inr uids"
    using g it st' by (simp add: sbind_def del: getpath.simps)
  moreover have "sum_map (assemble_record w (biosample_data st')) uids = Inr es"
    using es st' by simp
  moreover have "experiments st' = experiments st @
       filter (\<lambda>e. case getitem e (PStr ''Instrument'') of
                      Inr (PDict d) \<Rightarrow> ''ILLUMINA'' \<in> fst ` set d
                    | _ \<Rightarrow> False) es"
    using exps st' ex1 by simp
  moreover have "print_experiments (experiments st') = (ls, None)"
    using pe r0 st' by simp
  moreover have "trace st' = trace (fst (fetch_page w tok r st)) @ map Print ls"
    using st' fp by simp
  ultimately show ?thesis by blast
qed

lemma mixed_page_step:
  "page_step (scn_world mixed_page) (PStr ''MCID_1'') 0
       \<lparr>biosample_data = PNone, experiments = [], trace = []\<rparr> =
     (\<lparr>biosample_data = scn_page_json [(''1'', ''ILLUMINA''), (''3'', ''PACBIO_SMRT'')],
       experiments = [scn_record ''1'' ''ILLUMINA''],
       trace = [Request esummary_url (biosample_query_params (PStr ''MCID_1'') 0),
                Print (scn_row ''1'')]\<rparr>, None)"
  by (simp add: run_simps mixed_page_def del: getpath.simps)

text \<open>
  Witness for C6: of a page with an ILLUMINA and a PACBIO_SMRT experiment the first is kept
  and printed, the second is not.
\<close>

theorem platform_filter_keeps_illumina_witness:
  "sum_map (assemble_record (scn_world mixed_page)
       (scn_page_json [(''1'', ''ILLUMINA''), (''3'', ''PACBIO_SMRT'')])) [PStr ''101'', PStr ''103'']
     = Inr [scn_record ''1'' ''ILLUMINA'', scn_record ''3'' ''PACBIO_SMRT'']
   \<and> filter (\<lambda>e. case getitem e (PStr ''Instrument'') of
                     Inr (PDict d) \<Rightarrow> ''ILLUMINA'' \<in> fst ` set d
                   | _ \<Rightarrow> False)
        [scn_record ''1'' ''ILLUMINA'', scn_record ''3'' ''PACBIO_SMRT'']
     = [scn_record ''1'' ''ILLUMINA'']
   \<and> page_step (scn_world mixed_page) (PStr ''MCID_1'') 0
       \<lparr>biosample_data = PNone, experiments = [], trace = []\<rparr> =
     (\<lparr>biosample_data = scn_page_json [(''1'', ''ILLUMINA''), (''3'', ''PACBIO_SMRT'')],
       experiments = [scn_record ''1'' ''ILLUMINA''],
       trace = [Request esummary_url (biosample_query_params (PStr ''MCID_1'') 0),
                Print (scn_row ''1'')]\<rparr>, None)"
proof -
  let ?data = "scn_page_json [(''1'', ''ILLUMINA''), (''3'', ''PACBIO_SMRT'')]"
  let ?keep = "\<lambda>e. case getitem e (PStr ''Instrument'') of
                     Inr (PDict d) \<Rightarrow> ''ILLUMINA'' \<in> fst ` set d
                   | _ \<Rightarrow> False"
  have a: "sum_map (assemble_record (scn_world mixed_page) ?data) [PStr ''101'', PStr ''103'']
     = Inr [scn_record ''1'' ''ILLUMINA'', scn_record ''3'' ''PACBIO_SMRT'']"
    by (simp add: scn_page_assemble_mixed_1 scn_page_assemble_mixed_3)
  have u: "sbind (getpath ?data [''result'', ''uids'']) py_iter = Inr [PStr ''101'', PStr ''103'']"
    by (simp add: scn_page_uids sbind_def del: getpath.simps)
  from platform_filter_keeps_illumina [OF mixed_page_step]
  obtain uids es where
    o1: "sbind (getpath ?data [''result'', ''uids'']) py_iter = Inr uids"
    and o2: "sum_map (assemble_record (scn_world mixed_page) ?data) uids = Inr es"
    and o3: "[scn_record ''1'' ''ILLUMINA''] = filter ?keep es"
    by (simp only: state.simps append_Nil) (elim exE conjE, rule that, assumption+)
  from o1 have "uids = [PStr ''101'', PStr ''103'']"
    by (simp only: u sum.inject)
  with o2 have "es = [scn_record ''1'' ''ILLUMINA'', scn_record ''3'' ''PACBIO_SMRT'']"
    by (simp only: a sum.inject)
  with o3 have "filter ?keep [scn_record ''1'' ''ILLUMINA'', scn_record ''3'' ''PACBIO_SMRT'']
     = [scn_record ''1'' ''ILLUMINA'']" by (simp only:)
  with a mixed_page_step show ?thesis by (intro conjI)
qed

section \<open>The width of a row and the header\<close>

lemma row_values_shape:
  assumes "row_values e run = Inr vs"
  shows "\<exists>acc es. getitem run (PStr ''acc'') = Inr acc \<and> experiment_values e = Inr es
           \<and> length es = 18 \<and> vs = acc # es"
proof -
  from assms obtain acc es where a: "getitem run (PStr ''acc'') = Inr acc"
    and es: "experiment_values e = Inr es" and vs: "vs = acc # es"
    by (auto simp: row_values_def sbind_def split: sum.splits)
  from es have "length es = length experiment_paths"
    unfolding experiment_values_def by (rule sum_map_length)
  then have "length es = 18" by (simp add: experiment_paths_def)
  with a es vs show ?thesis by blast
qed

lemma row_values_length: "row_values e run = Inr vs \<Longrightarrow> length vs = 19"
  using row_values_shape [of e run vs] by auto

lemma row_line_joined:
  assumes "row_line e run = Inr line"
  shows "\<exists>fs. row_values e run = Inr (map PStr fs) \<and> length fs = 19 \<and> line = join_comma fs"
proof -
  from assms obtain vs where v: "row_values e run = Inr vs" and j: "py_join_comma vs = Inr line"
    by (auto simp: row_line_def sbind_def split: sum.splits)
  from j obtain fs where s: "sum_map as_str vs = Inr fs" and l: "line = join_comma fs"
    by (auto simp: py_join_comma_def sbind_def split: sum.splits)
  from sum_map_as_str [OF s] have m: "vs = map PStr fs" .
  from row_values_length [OF v] m have "length fs = 19" by simp
  with v m l show ?thesis by blast
qed

lemma print_runs_joined:
  "line \<in> set (fst (print_runs e runs)) \<Longrightarrow>
   \<exists>run fs. run \<in> set runs \<and> row_values e run = Inr (map PStr fs) \<and> length fs = 19
            \<and> line = join_comma fs"
proof (induction runs)
  case Nil
  then show ?case by simp
next
  case (Cons run runs)
  show ?case
  proof (cases "row_line e run")
    case (Inl err)
    with Cons.prems show ?thesis by simp
  next
    case (Inr l)
    from Cons.prems Inr have "line = l \<or> line \<in> set (fst (print_runs e runs))"
      by (auto split: prod.splits)
    then show ?thesis
    proof
      assume "line = l"
      with row_line_joined [OF Inr] show ?thesis by auto
    next
      assume "line \<in> set (fst (print_runs e runs))"
      from Cons.IH [OF this] show ?thesis by auto
    qed
  qed
qed

lemma print_experiment_csv_joined:
  assumes "line \<in> set (fst (print_experiment_csv e))"
  shows "\<exists>runs run fs. sbind (getitem e (PStr ''runs'')) py_iter = Inr runs \<and> run \<in> set runs
           \<and> row_values e run = Inr (map PStr fs) \<and> length fs = 19 \<and> line = join_comma fs"
proof (cases "sbind (getitem e (PStr ''runs'')) py_iter")
  case (Inl err)
  with assms show ?thesis by (simp add: print_experiment_csv_def)
next
  case (Inr runs)
  with assms have "line \<in> set (fst (print_runs e runs))"
    by (simp add: print_experiment_csv_def)
  from print_runs_joined [OF this] Inr show ?thesis by blast
qed

lemma print_experiments_joined:
  "line \<in> set (fst (print_experiments es)) \<Longrightarrow>
   \<exists>e runs run fs. e \<in> set es \<and> sbind (getitem e (PStr ''runs'')) py_iter = Inr runs
      \<and> run \<in> set runs \<and> row_values e run = Inr (map PStr fs) \<and> length fs = 19
      \<and> line = join_comma fs"
proof (induction es)
  case Nil
  then show ?case by simp
next
  case (Cons e es)
  obtain ls r where p: "print_experiment_csv e = (ls, r)" by (cases "print_experiment_csv e")
  have "line \<in> set (fst (print_experiment_csv e)) \<or> line \<in> set (fst (print_experiments es))"
    using Cons.prems p by (cases r) (auto split: prod.splits)
  then show ?case
  proof
    assume "line \<in> set (fst (print_experiment_csv e))"
    from print_experiment_csv_joined [OF this] show ?thesis by auto
  next
    assume "line \<in> set (fst (print_experiments es))"
    from Cons.IH [OF this] show ?thesis by auto
  qed
qed

lemma fetch_page_printed:
  "snd (fetch_page w tok r st) \<noteq> Some (Exit 1) \<Longrightarrow>
   printed (trace (fst (fetch_page w tok r st))) = printed (trace st)"
  by (simp add: fetch_page_def Let_def printed_append split: option.splits if_splits)

lemma process_uids_mono:
  assumes "process_uids w data uids exps = Inr exps'"
  shows "set exps \<subseteq> set exps'"
  using process_uids_filter [OF assms] by auto

lemma page_step_experiments_mono:
  "set (experiments st) \<subseteq> set (experiments (fst (page_step w tok r st)))"
proof -
  obtain st1 out where fp: "fetch_page w tok r st = (st1, out)"
    by (cases "fetch_page w tok r st")
  have e1: "experiments st1 = experiments st"
    using fetch_page_experiments [of w tok r st] fp by simp
  show ?thesis
  proof (cases out)
    case (Some o1)
    with fp e1 show ?thesis by (simp add: page_step_def)
  next
    case None
    show ?thesis
    proof (cases "getpath (biosample_data st1) [''result'', ''uids'']")
      case (Inl err)
      with fp None e1 show ?thesis by (cases err) (simp_all add: page_step_def)
    next
      case (Inr uids0)
      show ?thesis
      proof (cases "sbind (py_iter uids0)
          (\<lambda>us. process_uids w (biosample_data st1) us (experiments st1))")
        case (Inl err)
        with fp None e1 Inr show ?thesis by (simp add: page_step_def)
      next
        case (Inr exps)
        then obtain us where "process_uids w (biosample_data st1) us (experiments st1) = Inr exps"
          by (auto simp: sbind_def split: sum.splits)
        from process_uids_mono [OF this] e1 have "set (experiments st) \<subseteq> set exps" by simp
        with fp None \<open>getpath (biosample_data st1) [''result'', ''uids''] = Inr uids0\<close> Inr
        show ?thesis by (simp add: page_step_def Let_def split: prod.splits)
      qed
    qed
  qed
qed

lemma main_loop_experiments_mono:
  "set (experiments st) \<subseteq> set (experiments (fst (main_loop w tok rs st)))"
proof (induction rs arbitrary: st)
  case Nil
  then show ?case by simp
next
  case (Cons r rs)
  obtain st1 out where ps: "page_step w tok r st = (st1, out)" by (cases "page_step w tok r st")
  from page_step_experiments_mono [of st w tok r] ps
  have m1: "set (experiments st) \<subseteq> set (experiments st1)" by simp
  show ?case
  proof (cases out)
    case (Some o1)
    with ps m1 show ?thesis by simp
  next
    case None
    with ps m1 Cons.IH [of st1] show ?thesis by auto
  qed
qed

lemma page_step_printed:
  assumes "snd (page_step w tok r st) \<noteq> Some (Exit 1)"
  shows "\<exists>ls. printed (trace (fst (page_step w tok r st))) = printed (trace st) @ ls
           \<and> (\<forall>line \<in> set ls. \<exists>e runs run fs.
                  e \<in> set (experiments (fst (page_step w tok r st)))
                  \<and> sbind (getitem e (PStr ''runs'')) py_iter = Inr runs \<and> run \<in> set runs
                  \<and> row_values e run = Inr (map PStr fs) \<and> length fs = 19
                  \<and> line = join_comma fs)"
proof -
  obtain st1 out where fp: "fetch_page w tok r st = (st1, out)"
    by (cases "fetch_page w tok r st")
  show ?thesis
  proof (cases out)
    case (Some o1)
    with fp assms have "o1 \<noteq> Exit 1" by (simp add: page_step_def)
    with fp Some fetch_page_Exit [of w tok r st] show ?thesis by simp
  next
    case None
    with fp fetch_page_printed [of w tok r st] have p1: "printed (trace st1) = printed (trace st)"
      by simp
    show ?thesis
    proof (cases "getpath (biosample_data st1) [''result'', ''uids'']")
      case (Inl err)
      with fp None p1 show ?thesis
        by (cases err) (simp_all add: page_step_def printed_append)
    next
      case (Inr uids0)
      show ?thesis
      proof (cases "sbind (py_iter uids0)
          (\<lambda>us. process_uids w (biosample_data st1) us (experiments st1))")
        case (Inl err)
        with fp None p1 Inr show ?thesis by (simp add: page_step_def)
      next
        case (Inr exps)
        obtain ls r0 where pe: "print_experiments exps = (ls, r0)"
          by (cases "print_experiments exps")
        from fp None \<open>getpath (biosample_data st1) [''result'', ''uids''] = Inr uids0\<close> Inr pe
        have st': "fst (page_step w tok r st) =
            st1\<lparr>experiments := exps, trace := trace st1 @ map Print ls\<rparr>"
          by (simp add: page_step_def Let_def)
        have "printed (trace (fst (page_step w tok r st))) = printed (trace st) @ ls"
          unfolding st' using p1 by (simp add: printed_append printed_Print)
        moreover have "\<forall>line \<in> set ls. \<exists>e runs run fs.
                  e \<in> set (experiments (fst (page_step w tok r st)))
                  \<and> sbind (getitem e (PStr ''runs'')) py_iter = Inr runs \<and> run \<in> set runs
                  \<and> row_values e run = Inr (map PStr fs) \<and> length fs = 19
                  \<and> line = join_comma fs"
          unfolding st' using print_experiments_joined [of _ exps] pe by simp
        ultimately show ?thesis by blast
      qed
    qed
  qed
qed

lemma main_loop_printed:
  assumes "snd (main_loop w tok rs st) \<noteq> Exit 1"
  shows "\<exists>ls. printed (trace (fst (main_loop w tok rs st))) = printed (trace st) @ ls
           \<and> (\<forall>line \<in> set ls. \<exists>e runs run fs.
                  e \<in> set (experiments (fst (main_loop w tok rs st)))
                  \<and> sbind (getitem e (PStr ''runs'')) py_iter = Inr runs \<and> run \<in> set runs
                  \<and> row_values e run = Inr (map PStr fs) \<and> length fs = 19
                  \<and> line = join_comma fs)"
  using assms
proof (induction rs arbitrary: st)
  case Nil
  then show ?case by simp
next
  case (Cons r rs)
  obtain st1 out where ps: "page_step w tok r st = (st1, out)" by (cases "page_step w tok r st")
  have ne: "snd (page_step w tok r st) \<noteq> Some (Exit 1)"
    using ps Cons.prems by (cases out) simp_all
  from page_step_printed [OF ne] ps obtain ls1 where
      l1: "printed (trace st1) = printed (trace st) @ ls1"
      "\<forall>line \<in> set ls1. \<exists>e runs run fs. e \<in> set (experiments st1)
                  \<and> sbind (getitem e (PStr ''runs'')) py_iter = Inr runs \<and> run \<in> set runs
                  \<and> row_values e run = Inr (map PStr fs) \<and> length fs = 19
                  \<and> line = join_comma fs" by auto
  show ?case
  proof (cases out)
    case (Some o1)
    with ps l1 show ?thesis by simp
  next
    case None
    from ps None Cons.prems have "snd (main_loop w tok rs st1) \<noteq> Exit 1" by simp
    from Cons.IH [OF this] obtain ls2 where
      l2: "printed (trace (fst (main_loop w tok rs st1))) = printed (trace st1) @ ls2"
      "\<forall>line \<in> set ls2. \<exists>e runs run fs.
                  e \<in> set (experiments (fst (main_loop w tok rs st1)))
                  \<and> sbind (getitem e (PStr ''runs'')) py_iter = Inr runs \<and> run \<in> set runs
                  \<and> row_values e run = Inr (map PStr fs) \<and> length fs = 19
                  \<and> line = join_comma fs" by blast
    have fin: "fst (main_loop w tok (r # rs) st) = fst (main_loop w tok rs st1)"
      using ps None by simp
    have mono: "set (experiments st1) \<subseteq> set (experiments (fst (main_loop w tok rs st1)))"
      by (rule main_loop_experiments_mono)
    have "printed (trace (fst (main_loop w tok (r # rs) st))) = printed (trace st) @ (ls1 @ ls2)"
      unfolding fin using l1(1) l2(1) by simp
    moreover have "\<forall>line \<in> set (ls1 @ ls2). \<exists>e runs run fs.
                  e \<in> set (experiments (fst (main_loop w tok (r # rs) st)))
                  \<and> sbind (getitem e (PStr ''runs'')) py_iter = Inr runs \<and> run \<in> set runs
                  \<and> row_values e run = Inr (map PStr fs) \<and> length fs = 19
                  \<and> line = join_comma fs"
      unfolding fin using l1(2) l2(2) mono by (auto; blast)
    ultimately show ?thesis by blast
  qed
qed

text \<open>
  Claim C7, as stated, fails: the list joined into the line of a run has nineteen items,
  not eighteen, and the header line is not the join of the names the specification lists
  (it says \<open>submitter\<close> and \<open>total_size_mb\<close>).
\<close>

theorem row_width_counterexample:
  "print_experiment_csv (scn_record ''1'' ''ILLUMINA'') =
     ([''SRR1,PRJ1,SRX1,E1,Ecoli,M1,C1,SRP1,S1,SRS1,N1,30,1,10,20,L1,WGS,GENOMIC,RANDOM''], None)
   \<and> map_sum id length (row_values (scn_record ''1'' ''ILLUMINA'')
        (PDict [(''acc'', PStr ''SRR1''), (''total_spots'', PStr ''10'')])) = Inr 19
   \<and> join_comma output_fields \<noteq> join_comma spec_row_schema"
  by (simp add: scn_print scn_row_def)
     (simp add: row_values_def experiment_values_def experiment_paths_def scn_record_def sbind_def
        output_fields_def spec_row_schema_def)

text \<open>
  Claim C7, amended. The list \<open>print_experiment_csv\<close> joins into the line of a run has
  exactly nineteen items: the run's \<open>acc\<close> followed by the eighteen experiment-level
  values. Every line it prints for a record is the comma-join of that list, of nineteen
  strings, for one of the record's runs. In a run with an integer \<open>max_samples\<close> whose
  search call does not raise and that does not end in \<^verbatim>\<open>exit(1)\<close>, the printed lines are
  the header line followed only by such lines for records in the list \<open>experiments\<close> of
  the run. The header line is the join of the eighteen items of \<open>output_fields\<close>, the text
  given below; the item \<open>instrument,submitter\<close> makes it read as nineteen names.
\<close>

theorem rows_of_19_fields:
  "(row_values e run = Inr vs \<longrightarrow>
      length vs = 19
      \<and> (\<exists>acc es. getitem run (PStr ''acc'') = Inr acc \<and> experiment_values e = Inr es
             \<and> length es = 18 \<and> vs = acc # es))
   \<and> (\<forall>line \<in> set (fst (print_experiment_csv e)).
        \<exists>runs run' fs. sbind (getitem e (PStr ''runs'')) py_iter = Inr runs \<and> run' \<in> set runs
          \<and> row_values e run' = Inr (map PStr fs) \<and> length fs = 19 \<and> line = join_comma fs)
   \<and> (search_webenv w a = Inr tok \<longrightarrow> max_samples a = PInt M \<longrightarrow> snd (main w a) \<noteq> Exit 1 \<longrightarrow>
        (\<exists>rows. printed (fst (main w a)) = join_comma output_fields # rows
           \<and> (\<forall>line \<in> set rows. \<exists>e' runs run' fs.
                  e' \<in> set (experiments (fst (main_loop w tok (py_range 0 (M + 1) 500)
                         \<lparr>biosample_data = PNone, experiments = [],
                           trace = [Request esearch_url (project_query_params a),
                                    Print (join_comma output_fields)]\<rparr>)))
                  \<and> sbind (getitem e' (PStr ''runs'')) py_iter = Inr runs \<and> run' \<in> set runs
                  \<and> row_values e' run' = Inr (map PStr fs) \<and> length fs = 19
                  \<and> line = join_comma fs)))
   \<and> length output_fields = 18
   \<and> join_comma output_fields =
        ''run_accession,bioproject_accession,experiment_accession,experiment_title,organism_name,instrument,submitter,study_accession,study_title,sample_accession,sample_title,total_size_mb,total_runs,total_spots,total_bases,library_name,library_strategy,library_source,library_selection''"
proof (intro conjI impI ballI)
  assume "row_values e run = Inr vs"
  then show "length vs = 19" by (rule row_values_length)
next
  assume "row_values e run = Inr vs"
  then show "\<exists>acc es. getitem run (PStr ''acc'') = Inr acc \<and> experiment_values e = Inr es
             \<and> length es = 18 \<and> vs = acc # es" by (rule row_values_shape)
next
  fix line assume "line \<in> set (fst (print_experiment_csv e))"
  then show "\<exists>runs run' fs. sbind (getitem e (PStr ''runs'')) py_iter = Inr runs \<and> run' \<in> set runs
          \<and> row_values e run' = Inr (map PStr fs) \<and> length fs = 19 \<and> line = join_comma fs"
    by (rule print_experiment_csv_joined)
next
  assume s: "search_webenv w a = Inr tok" and ms: "max_samples a = PInt M"
    and x: "snd (main w a) \<noteq> Exit 1"
  let ?st0 = "\<lparr>biosample_data = PNone, experiments = [],
       trace = [Request esearch_url (project_query_params a), Print (join_comma output_fields)]\<rparr>"
  let ?rs = "py_range 0 (M + 1) 500"
  have m: "main w a = (trace (fst (main_loop w tok ?rs ?st0)), snd (main_loop w tok ?rs ?st0))"
    using s ms by (simp add: main_def Let_def split: prod.splits)
  with x have "snd (main_loop w tok ?rs ?st0) \<noteq> Exit 1" by simp
  from main_loop_printed [OF this] obtain ls where
    p: "printed (trace (fst (main_loop w tok ?rs ?st0))) = printed (trace ?st0) @ ls"
    and r: "\<forall>line \<in> set ls. \<exists>e' runs run' fs.
                  e' \<in> set (experiments (fst (main_loop w tok ?rs ?st0)))
                  \<and> sbind (getitem e' (PStr ''runs'')) py_iter = Inr runs \<and> run' \<in> set runs
                  \<and> row_values e' run' = Inr (map PStr fs) \<and> length fs = 19
                  \<and> line = join_comma fs" by blast
  from m p have "printed (fst (main w a)) = join_comma output_fields # ls" by simp
  with r show "\<exists>rows. printed (fst (main w a)) = join_comma output_fields # rows
           \<and> (\<forall>line \<in> set rows. \<exists>e' runs run' fs.
                  e' \<in> set (experiments (fst (main_loop w tok ?rs ?st0)))
                  \<and> sbind (getitem e' (PStr ''runs'')) py_iter = Inr runs \<and> run' \<in> set runs
                  \<and> row_values e' run' = Inr (map PStr fs) \<and> length fs = 19
                  \<and> line = join_comma fs)" by blast
next
  show "length output_fields = 18" by (simp add: output_fields_def)
next
  show "join_comma output_fields =
        ''run_accession,bioproject_accession,experiment_accession,experiment_title,organism_name,instrument,submitter,study_accession,study_title,sample_accession,sample_title,total_size_mb,total_runs,total_spots,total_bases,library_name,library_strategy,library_source,library_selection''"
    by (simp add: output_fields_def)
qed

lemma scn_row_values:
  "row_values (scn_record ''1'' ''ILLUMINA'')
       (PDict [(''acc'', PStr ''SRR1''), (''total_spots'', PStr ''10'')]) =
     Inr (map PStr [''SRR1'', ''PRJ1'', ''SRX1'', ''E1'', ''Ecoli'', ''M1'', ''C1'', ''SRP1'',
       ''S1'', ''SRS1'', ''N1'', ''30'', ''1'', ''10'', ''20'', ''L1'', ''WGS'', ''GENOMIC'',
       ''RANDOM''])"
  by (simp add: row_values_def experiment_values_def experiment_paths_def scn_record_def sbind_def)

text \<open>Witness for C7: the nineteen items for run SRR1, and the run over two pages.\<close>

theorem rows_of_19_fields_witness:
  "length [PStr ''SRR1'', PStr ''PRJ1'', PStr ''SRX1'', PStr ''E1'', PStr ''Ecoli'', PStr ''M1'',
       PStr ''C1'', PStr ''SRP1'', PStr ''S1'', PStr ''SRS1'', PStr ''N1'', PStr ''30'', PStr ''1'',
       PStr ''10'', PStr ''20'', PStr ''L1'', PStr ''WGS'', PStr ''GENOMIC'', PStr ''RANDOM''] = 19
   \<and> row_values (scn_record ''1'' ''ILLUMINA'')
       (PDict [(''acc'', PStr ''SRR1''), (''total_spots'', PStr ''10'')]) =
     Inr [PStr ''SRR1'', PStr ''PRJ1'', PStr ''SRX1'', PStr ''E1'', PStr ''Ecoli'', PStr ''M1'',
       PStr ''C1'', PStr ''SRP1'', PStr ''S1'', PStr ''SRS1'', PStr ''N1'', PStr ''30'', PStr ''1'',
       PStr ''10'', PStr ''20'', PStr ''L1'', PStr ''WGS'', PStr ''GENOMIC'', PStr ''RANDOM'']
   \<and> (\<exists>rows. printed (fst (main (scn_world two_pages) (scn_args 500)))
                 = join_comma output_fields # rows)"
proof -
  note t = rows_of_19_fields [where e = "scn_record ''1'' ''ILLUMINA''"
      and run = "PDict [(''acc'', PStr ''SRR1''), (''total_spots'', PStr ''10'')]"
      and vs = "[PStr ''SRR1'', PStr ''PRJ1'', PStr ''SRX1'', PStr ''E1'', PStr ''Ecoli'', PStr ''M1'',
       PStr ''C1'', PStr ''SRP1'', PStr ''S1'', PStr ''SRS1'', PStr ''N1'', PStr ''30'', PStr ''1'',
       PStr ''10'', PStr ''20'', PStr ''L1'', PStr ''WGS'', PStr ''GENOMIC'', PStr ''RANDOM'']"
      and w = "scn_world two_pages" and a = "scn_args 500" and tok = "PStr ''MCID_1''"
      and M = 500]
  have v: "row_values (scn_record ''1'' ''ILLUMINA'')
       (PDict [(''acc'', PStr ''SRR1''), (''total_spots'', PStr ''10'')]) =
     Inr [PStr ''SRR1'', PStr ''PRJ1'', PStr ''SRX1'', PStr ''E1'', PStr ''Ecoli'', PStr ''M1'',
       PStr ''C1'', PStr ''SRP1'', PStr ''S1'', PStr ''SRS1'', PStr ''N1'', PStr ''30'', PStr ''1'',
       PStr ''10'', PStr ''20'', PStr ''L1'', PStr ''WGS'', PStr ''GENOMIC'', PStr ''RANDOM'']"
    using scn_row_values by simp
  have r: "snd (main (scn_world two_pages) (scn_args 500)) \<noteq> Exit 1"
    by (simp add: two_pages_run)
  have m: "max_samples (scn_args 500) = PInt 500"
    by (simp add: scn_args_def)
  from t [THEN conjunct2, THEN conjunct2, THEN conjunct1, rule_format, OF scn_search_webenv m r]
  have "\<exists>rows. printed (fst (main (scn_world two_pages) (scn_args 500)))
                 = join_comma output_fields # rows" by (elim exE conjE) (rule exI)
  with t [THEN conjunct1, rule_format, OF v, THEN conjunct1] v
  show ?thesis by (intro conjI)
qed

end
